theory Spec2Isabelle
  imports Complex_Main
begin

section \<open>Data model of \<open>src/App.tsx\<close>\<close>

text \<open>
  The simulation core of the arena shooter lives in one React component. Its game state is
  the object behind \<open>gameStateRef\<close>; the operations are the callbacks \<open>spawnParticles\<close>,
  \<open>spawnBolts\<close>, \<open>spawnWave\<close>, \<open>shoot\<close>, \<open>upgradeWeapon\<close>, \<open>resetGame\<close>, \<open>startGame\<close>, the
  per-frame \<open>gameLoop\<close> and the weapon-select handler.

  Conventions of the embedding:
  \<^item> a TypeScript \<open>number\<close> that holds a quantity is a \<open>real\<close> (IEEE rounding is idealised
    away); array indices, loop bounds and the counters \<open>wave\<close> and \<open>level\<close>, which start at a
    literal and only ever change by \<open>++\<close>, are \<open>nat\<close>;
  \<^item> \<open>Math.cos\<close>, \<open>Math.sin\<close>, \<open>Math.sqrt\<close>, \<open>Math.PI\<close> are the functions of the reals;
  \<^item> record fields keep the source's names, with a prefix where several interfaces share a
    name (\<open>x\<close>, \<open>y\<close>, \<open>health\<close>, \<open>color\<close>, \<open>size\<close>, ...);
  \<^item> the in-place mutation of \<open>gameStateRef.current\<close> is explicit state passing;
  \<^item> reading a property of \<open>state.weapons[i]\<close> for an index outside the array throws a
    \<open>TypeError\<close> in JavaScript: such operations return \<open>None\<close>;
  \<^item> rendering (canvas drawing) and the React \<open>uiState\<close> copy are not part of the model:
    they only read the state.
\<close>

datatype EnemyType = Drone | Tank | Boss

record Particle =
  pt_x :: real
  pt_y :: real
  pt_vx :: real
  pt_vy :: real
  life :: real
  maxLife :: real
  pt_color :: string
  pt_size :: real

record Bolt =
  b_x :: real
  b_y :: real
  collected :: bool
  sparkle :: real

record Enemy =
  e_x :: real
  e_y :: real
  e_health :: real
  e_maxHealth :: real
  e_type :: EnemyType
  e_angle :: real
  shootCooldown :: real

record Projectile =
  pr_x :: real
  pr_y :: real
  pr_vx :: real
  pr_vy :: real
  pr_damage :: real
  isEnemy :: bool
  pr_color :: string
  pr_size :: real

record Weapon =
  name :: string
  damage :: real
  fireRate :: real
  ammoMax :: real
  ammoCost :: real
  color :: string
  projectileSize :: real
  spread :: real
  level :: nat
  upgradeCost :: real

record Player =
  p_x :: real
  p_y :: real
  p_vx :: real
  p_vy :: real
  health :: real
  maxHealth :: real
  angle :: real
  invincible :: real

record GameState =
  player :: Player
  weapons :: "Weapon list"
  currentWeapon :: nat
  ammo :: real
  bolts :: real
  totalBolts :: real
  enemies :: "Enemy list"
  projectiles :: "Projectile list"
  particles :: "Particle list"
  boltPickups :: "Bolt list"
  wave :: nat
  score :: real
  gameOver :: bool
  paused :: bool
  started :: bool

text \<open>
  Besides \<open>gameStateRef\<close> the callbacks share \<open>lastShotRef\<close> (one number for the whole
  component) and the global \<open>Math.random\<close>. The latter is an oracle: \<open>rand w k\<close> is the value
  the \<open>k\<close>-th call returns and \<open>drawn w\<close> counts the calls made so far.
\<close>

record World = GameState +
  lastShot :: real
  rand :: "nat \<Rightarrow> real"
  drawn :: nat

text \<open>The refs written by the input handlers and read by one frame, and the value of
  \<open>Date.now()\<close> in that frame.\<close>

record Input =
  keys :: "string set"
  mouse_x :: real
  mouse_y :: real
  shooting :: bool
  now :: real

definition CANVAS_WIDTH :: real where
  "CANVAS_WIDTH = 1200"

definition CANVAS_HEIGHT :: real where
  "CANVAS_HEIGHT = 700"

definition initialWeapons :: "Weapon list" where
  "initialWeapons =
    [\<lparr>name = ''Blaster'', damage = 10, fireRate = 200, ammoMax = 100, ammoCost = 1,
      color = ''#00d4ff'', projectileSize = 6, spread = 0, level = 1, upgradeCost = 50\<rparr>,
     \<lparr>name = ''Combustor'', damage = 25, fireRate = 400, ammoMax = 50, ammoCost = 2,
      color = ''#ff6b35'', projectileSize = 10, spread = 0.1, level = 1, upgradeCost = 100\<rparr>,
     \<lparr>name = ''Plasma Storm'', damage = 5, fireRate = 50, ammoMax = 200, ammoCost = 1,
      color = ''#a855f7'', projectileSize = 4, spread = 0.3, level = 1, upgradeCost = 150\<rparr>,
     \<lparr>name = ''Devastator'', damage = 50, fireRate = 800, ammoMax = 20, ammoCost = 5,
      color = ''#f7c94b'', projectileSize = 15, spread = 0, level = 1, upgradeCost = 200\<rparr>]"

text \<open>\<open>state.weapons[i]\<close>: \<open>undefined\<close> outside the array.\<close>

definition weaponAt :: "Weapon list \<Rightarrow> nat \<Rightarrow> Weapon option" where
  "weaponAt ws i = (if i < length ws then Some (ws ! i) else None)"

text \<open>The initial value of \<open>gameStateRef\<close>, with \<open>lastShotRef = 0\<close>, for a given oracle.\<close>

definition initialWorld :: "(nat \<Rightarrow> real) \<Rightarrow> World" where
  "initialWorld r =
    \<lparr>player = \<lparr>p_x = CANVAS_WIDTH / 2, p_y = CANVAS_HEIGHT / 2, p_vx = 0, p_vy = 0,
               health = 100, maxHealth = 100, angle = 0, invincible = 0\<rparr>,
     weapons = initialWeapons, currentWeapon = 0, ammo = 100, bolts = 0, totalBolts = 0,
     enemies = [], projectiles = [], particles = [], boltPickups = [],
     wave = 1, score = 0, gameOver = False, paused = False, started = False,
     lastShot = 0, rand = r, drawn = 0\<rparr>"

section \<open>Spawning\<close>

text \<open>\<open>spawnParticles(x, y, color, count, speed = 3)\<close>: each iteration calls
  \<open>Math.random\<close> four times (angle, velocity, life, size) and pushes one particle.\<close>

fun spawnParticles :: "real \<Rightarrow> real \<Rightarrow> string \<Rightarrow> nat \<Rightarrow> real \<Rightarrow> World \<Rightarrow> World" where
  "spawnParticles x y c 0 speed w = w"
| "spawnParticles x y c (Suc n) speed w =
    (let d = drawn w;
         a = rand w d * pi * 2;
         velocity = rand w (d + 1) * speed + 1
     in spawnParticles x y c n speed
          (w\<lparr>particles := particles w @
                [\<lparr>pt_x = x, pt_y = y, pt_vx = cos a * velocity, pt_vy = sin a * velocity,
                  life = 30 + rand w (d + 2) * 20, maxLife = 50, pt_color = c,
                  pt_size = 2 + rand w (d + 3) * 3\<rparr>],
              drawn := d + 4\<rparr>))"

text \<open>\<open>spawnBolts(x, y, count)\<close>: three calls of \<open>Math.random\<close> per pickup.\<close>

fun spawnBolts :: "real \<Rightarrow> real \<Rightarrow> nat \<Rightarrow> World \<Rightarrow> World" where
  "spawnBolts x y 0 w = w"
| "spawnBolts x y (Suc n) w =
    (let d = drawn w;
         a = rand w d * pi * 2;
         dist = rand w (d + 1) * 30
     in spawnBolts x y n
          (w\<lparr>boltPickups := boltPickups w @
                [\<lparr>b_x = x + cos a * dist, b_y = y + sin a * dist, collected = False,
                  sparkle = rand w (d + 2) * pi * 2\<rparr>],
              drawn := d + 3\<rparr>))"

text \<open>
  One iteration of the loop of \<open>spawnWave\<close>. \<open>Math.random\<close> is called for the side and for
  the coordinate along it, then for the variant, but only when \<open>wave > 3\<close> (\<open>&&\<close> does not
  evaluate its right operand otherwise), then for the cooldown.
\<close>

definition spawnEnemy :: "nat \<Rightarrow> World \<Rightarrow> World" where
  "spawnEnemy wv w =
    (let d = drawn w;
         side = \<lfloor>rand w d * 4\<rfloor>;
         r = rand w (d + 1);
         x = (if side = 0 then r * CANVAS_WIDTH else if side = 1 then CANVAS_WIDTH + 50
              else if side = 2 then r * CANVAS_WIDTH else - 50);
         y = (if side = 0 then - 50 else if side = 1 then r * CANVAS_HEIGHT
              else if side = 2 then CANVAS_HEIGHT + 50 else r * CANVAS_HEIGHT);
         ty = (if wv > 3 \<and> rand w (d + 2) < 0.2 then Tank else Drone);
         d' = (if wv > 3 then d + 3 else d + 2);
         healthMult = (if ty = Tank then 3 else 1)
     in w\<lparr>enemies := enemies w @
             [\<lparr>e_x = x, e_y = y, e_health = (30 + real wv * 10) * healthMult,
               e_maxHealth = (30 + real wv * 10) * healthMult, e_type = ty, e_angle = 0,
               shootCooldown = rand w d' * 60\<rparr>],
           drawn := d' + 1\<rparr>)"

fun spawnEnemies :: "nat \<Rightarrow> nat \<Rightarrow> World \<Rightarrow> World" where
  "spawnEnemies wv 0 w = w"
| "spawnEnemies wv (Suc n) w = spawnEnemies wv n (spawnEnemy wv w)"

definition spawnWave :: "nat \<Rightarrow> World \<Rightarrow> World" where
  "spawnWave wv w =
    (let enemyCount = 3 + wv * 2;
         w1 = spawnEnemies wv enemyCount w
     in if wv mod 5 = 0
        then w1\<lparr>enemies := enemies w1 @
                  [\<lparr>e_x = CANVAS_WIDTH / 2, e_y = - 100, e_health = 200 + real wv * 50,
                    e_maxHealth = 200 + real wv * 50, e_type = Boss, e_angle = 0,
                    shootCooldown = 0\<rparr>]\<rparr>
        else w1)"

section \<open>Weapons\<close>

text \<open>\<open>upgradeWeapon(index)\<close>. The weapon object is mutated in place, in the order level,
  upgradeCost, damage, ammoMax; each right-hand side reads only its own field.\<close>

definition upgradeWeapon :: "nat \<Rightarrow> World \<Rightarrow> World option" where
  "upgradeWeapon index w =
    (case weaponAt (weapons w) index of
       None \<Rightarrow> None
     | Some weapon \<Rightarrow>
         if bolts w \<ge> upgradeCost weapon \<and> level weapon < 5
         then Some (w\<lparr>bolts := bolts w - upgradeCost weapon,
                      weapons := (weapons w)
                        [index := weapon\<lparr>level := level weapon + 1,
                                         upgradeCost := real_of_int \<lfloor>upgradeCost weapon * 1.8\<rfloor>,
                                         damage := real_of_int \<lfloor>damage weapon * 1.3\<rfloor>,
                                         ammoMax := real_of_int \<lfloor>ammoMax weapon * 1.2\<rfloor>\<rparr>]\<rparr>)
         else Some w)"

text \<open>The key handler for \<open>'1'\<close>..\<open>'4'\<close> and the click on a weapon slot.\<close>

definition selectWeapon :: "nat \<Rightarrow> World \<Rightarrow> World option" where
  "selectWeapon index w =
    (case weaponAt (weapons w) index of
       None \<Rightarrow> None
     | Some weapon \<Rightarrow> Some (w\<lparr>currentWeapon := index, ammo := min (ammo w) (ammoMax weapon)\<rparr>))"

text \<open>
  \<open>shoot()\<close>. The cooldown test reads the single \<open>lastShotRef\<close>, whichever weapon fired
  last; the argument \<open>t\<close> is the value of \<open>Date.now()\<close>.
\<close>

definition shoot :: "real \<Rightarrow> World \<Rightarrow> World option" where
  "shoot t w =
    (case weaponAt (weapons w) (currentWeapon w) of
       None \<Rightarrow> None
     | Some weapon \<Rightarrow>
         if t - lastShot w < fireRate weapon then Some w
         else if ammo w < ammoCost weapon then Some w
         else
           (let sp = (rand w (drawn w) - 0.5) * spread weapon;
                a = angle (player w) + sp;
                x = p_x (player w) + cos a * 30;
                y = p_y (player w) + sin a * 30
            in Some (spawnParticles x y (color weapon) 5 2
                 (w\<lparr>lastShot := t,
                    ammo := ammo w - ammoCost weapon,
                    drawn := drawn w + 1,
                    projectiles := projectiles w @
                      [\<lparr>pr_x = x, pr_y = y, pr_vx = cos a * 15, pr_vy = sin a * 15,
                        pr_damage = damage weapon * real (level weapon), isEnemy = False,
                        pr_color = color weapon, pr_size = projectileSize weapon\<rparr>]\<rparr>))))"

section \<open>Start and reset\<close>

definition startGame :: "World \<Rightarrow> World" where
  "startGame w = spawnWave 1 (w\<lparr>started := True\<rparr>)"

text \<open>\<open>resetGame\<close> replaces the game state by a fresh one; \<open>lastShotRef\<close> and the oracle are
  outside of it and stay.\<close>

definition resetGame :: "World \<Rightarrow> World" where
  "resetGame w =
    spawnWave 1
      (w\<lparr>player := \<lparr>p_x = CANVAS_WIDTH / 2, p_y = CANVAS_HEIGHT / 2, p_vx = 0, p_vy = 0,
                     health = 100, maxHealth = 100, angle = 0, invincible = 0\<rparr>,
         weapons := initialWeapons, currentWeapon := 0, ammo := 100, bolts := 0,
         totalBolts := 0, enemies := [], projectiles := [], particles := [],
         boltPickups := [], wave := 1, score := 0, gameOver := False, paused := False,
         started := True\<rparr>)"

section \<open>The frame: \<open>gameLoop\<close>\<close>

text \<open>\<open>Math.atan2\<close> on the reals (signed zeros idealised away).\<close>

definition atan2 :: "real \<Rightarrow> real \<Rightarrow> real" where
  "atan2 y x =
    (if x > 0 then arctan (y / x)
     else if x < 0 \<and> y \<ge> 0 then arctan (y / x) + pi
     else if x < 0 then arctan (y / x) - pi
     else if y > 0 then pi / 2
     else if y < 0 then - (pi / 2)
     else 0)"

text \<open>Player movement, then the facing angle from the pointer.\<close>

definition movePlayer :: "string set \<Rightarrow> World \<Rightarrow> World" where
  "movePlayer ks w =
    (let p = player w;
         speed = 5;
         vy = (if ''w'' \<in> ks \<or> ''arrowup'' \<in> ks then - speed
               else if ''s'' \<in> ks \<or> ''arrowdown'' \<in> ks then speed
               else p_vy p * 0.8);
         vx = (if ''a'' \<in> ks \<or> ''arrowleft'' \<in> ks then - speed
               else if ''d'' \<in> ks \<or> ''arrowright'' \<in> ks then speed
               else p_vx p * 0.8);
         x = max 30 (min (CANVAS_WIDTH - 30) (p_x p + vx));
         y = max 30 (min (CANVAS_HEIGHT - 30) (p_y p + vy))
     in w\<lparr>player := p\<lparr>p_vy := vy, p_vx := vx, p_x := x, p_y := y\<rparr>\<rparr>)"

definition aimPlayer :: "real \<Rightarrow> real \<Rightarrow> World \<Rightarrow> World" where
  "aimPlayer mx my w =
    w\<lparr>player := (player w)\<lparr>angle := atan2 (my - p_y (player w)) (mx - p_x (player w))\<rparr>\<rparr>"

definition updateInvincibility :: "World \<Rightarrow> World" where
  "updateInvincibility w =
    (if invincible (player w) > 0
     then w\<lparr>player := (player w)\<lparr>invincible := invincible (player w) - 1\<rparr>\<rparr>
     else w)"

text \<open>The first \<open>filter\<close> over the projectiles: each one is advanced, then kept when still
  within the playfield plus a margin of 50.\<close>

definition advanceProjectile :: "Projectile \<Rightarrow> Projectile" where
  "advanceProjectile p = p\<lparr>pr_x := pr_x p + pr_vx p, pr_y := pr_y p + pr_vy p\<rparr>"

definition onField :: "Projectile \<Rightarrow> bool" where
  "onField p \<longleftrightarrow>
    pr_x p > - 50 \<and> pr_x p < CANVAS_WIDTH + 50 \<and> pr_y p > - 50 \<and> pr_y p < CANVAS_HEIGHT + 50"

definition updateProjectiles :: "World \<Rightarrow> World" where
  "updateProjectiles w =
    w\<lparr>projectiles := filter onField (map advanceProjectile (projectiles w))\<rparr>"

text \<open>The body of \<open>state.enemies.forEach\<close>: the enemy as mutated and the projectiles it
  pushes.\<close>

definition bossVolley :: "Enemy \<Rightarrow> Projectile list" where
  "bossVolley e =
    map (\<lambda>i. let spreadAngle = e_angle e + (real i - 2) * 0.3
              in \<lparr>pr_x = e_x e, pr_y = e_y e, pr_vx = cos spreadAngle * 6,
                   pr_vy = sin spreadAngle * 6, pr_damage = 15, isEnemy = True,
                   pr_color = ''#ff3366'', pr_size = 8\<rparr>) [0..<5]"

definition updateEnemy :: "Player \<Rightarrow> Enemy \<Rightarrow> Enemy \<times> Projectile list" where
  "updateEnemy pl e =
    (let dx = p_x pl - e_x e;
         dy = p_y pl - e_y e;
         dist = sqrt (dx * dx + dy * dy);
         moveSpeed = (if e_type e = Tank then 1 else if e_type e = Boss then 1.5 else 2);
         e1 = e\<lparr>e_angle := atan2 dy dx\<rparr>;
         e2 = (if dist > 150
               then e1\<lparr>e_x := e_x e + (dx / dist) * moveSpeed,
                       e_y := e_y e + (dy / dist) * moveSpeed\<rparr>
               else e1);
         e3 = e2\<lparr>shootCooldown := shootCooldown e - 1\<rparr>
     in if shootCooldown e3 \<le> 0
        then
          (let e4 = e3\<lparr>shootCooldown :=
                         (if e_type e = Boss then 30 else if e_type e = Tank then 90 else 120)\<rparr>
           in if e_type e = Boss then (e4, bossVolley e4)
              else (e4, [\<lparr>pr_x = e_x e4, pr_y = e_y e4, pr_vx = cos (e_angle e4) * 5,
                           pr_vy = sin (e_angle e4) * 5,
                           pr_damage = (if e_type e = Tank then 15 else 10), isEnemy = True,
                           pr_color = ''#ff3366'', pr_size = 6\<rparr>]))
        else (e3, []))"

fun updateEnemyList :: "Player \<Rightarrow> Enemy list \<Rightarrow> Enemy list \<times> Projectile list" where
  "updateEnemyList pl [] = ([], [])"
| "updateEnemyList pl (e # es) =
    (let (e', ps) = updateEnemy pl e;
         (es', ps') = updateEnemyList pl es
     in (e' # es', ps @ ps'))"

definition updateEnemies :: "World \<Rightarrow> World" where
  "updateEnemies w =
    (let (es, ps) = updateEnemyList (player w) (enemies w)
     in w\<lparr>enemies := es, projectiles := projectiles w @ ps\<rparr>)"

subsection \<open>Collision detection\<close>

text \<open>The constants the source writes as nested conditional expressions on \<open>e.type\<close>.\<close>

definition enemySize :: "EnemyType \<Rightarrow> real" where
  "enemySize ty = (if ty = Boss then 50 else if ty = Tank then 35 else 25)"

definition boltCount :: "EnemyType \<Rightarrow> nat" where
  "boltCount ty = (if ty = Boss then 20 else if ty = Tank then 8 else 3)"

definition scoreValue :: "EnemyType \<Rightarrow> real" where
  "scoreValue ty = (if ty = Boss then 500 else if ty = Tank then 100 else 50)"

definition overlapsEnemy :: "Projectile \<Rightarrow> Enemy \<Rightarrow> bool" where
  "overlapsEnemy p e \<longleftrightarrow>
    (let size = enemySize (e_type e);
         dx = pr_x p - e_x e;
         dy = pr_y p - e_y e
     in dx * dx + dy * dy < (size + pr_size p) * (size + pr_size p))"

text \<open>The body of the overlap branch for the enemy at index \<open>i\<close>: damage, particles, and on
  death pickups, particles, score and \<open>splice(i, 1)\<close>.\<close>

definition hitEnemy :: "Projectile \<Rightarrow> nat \<Rightarrow> World \<Rightarrow> World" where
  "hitEnemy p i w =
    (let e = (enemies w ! i)\<lparr>e_health := e_health (enemies w ! i) - pr_damage p\<rparr>;
         w1 = spawnParticles (pr_x p) (pr_y p) (pr_color p) 8 3
                (w\<lparr>enemies := (enemies w)[i := e]\<rparr>)
     in if e_health e \<le> 0
        then
          (let w2 = spawnBolts (e_x e) (e_y e) (boltCount (e_type e)) w1;
               w3 = spawnParticles (e_x e) (e_y e) ''#ff6b35'' 30 5 w2
           in w3\<lparr>score := score w3 + scoreValue (e_type e),
                 enemies := take i (enemies w3) @ drop (Suc i) (enemies w3)\<rparr>)
        else w1)"

text \<open>The loop \<open>for (let i = state.enemies.length - 1; i >= 0; i--)\<close>: \<open>scanEnemies p n w\<close>
  tests the indices below \<open>n\<close> from the top down and returns the state after the first hit
  (the callback then returns \<open>false\<close>), or \<open>None\<close> when the loop runs out.\<close>

fun scanEnemies :: "Projectile \<Rightarrow> nat \<Rightarrow> World \<Rightarrow> World option" where
  "scanEnemies p 0 w = None"
| "scanEnemies p (Suc i) w =
    (if overlapsEnemy p (enemies w ! i) then Some (hitEnemy p i w) else scanEnemies p i w)"

text \<open>The branch for an enemy-owned projectile.\<close>

definition hitPlayer :: "Projectile \<Rightarrow> World \<Rightarrow> World option" where
  "hitPlayer p w =
    (let dx = pr_x p - p_x (player w);
         dy = pr_y p - p_y (player w)
     in if dx * dx + dy * dy < 900 \<and> invincible (player w) \<le> 0
        then
          (let pl = (player w)\<lparr>health := health (player w) - pr_damage p, invincible := 60\<rparr>;
               w1 = spawnParticles (p_x pl) (p_y pl) ''#ff3366'' 15 3 (w\<lparr>player := pl\<rparr>)
           in Some (if health pl \<le> 0 then w1\<lparr>gameOver := True\<rparr> else w1))
        else None)"

text \<open>The callback of the second \<open>filter\<close>: the value it returns (keep the projectile?) and
  the state it leaves.\<close>

definition collideProjectile :: "Projectile \<Rightarrow> World \<Rightarrow> bool \<times> World" where
  "collideProjectile p w =
    (if \<not> isEnemy p
     then (case scanEnemies p (length (enemies w)) w of
             Some w' \<Rightarrow> (False, w')
           | None \<Rightarrow> (True, w))
     else (case hitPlayer p w of
             Some w' \<Rightarrow> (False, w')
           | None \<Rightarrow> (True, w)))"

fun collideAll :: "Projectile list \<Rightarrow> World \<Rightarrow> Projectile list \<times> World" where
  "collideAll [] w = ([], w)"
| "collideAll (p # ps) w =
    (let (keep, w1) = collideProjectile p w;
         (ks, w2) = collideAll ps w1
     in (if keep then p # ks else ks, w2))"

definition detectCollisions :: "World \<Rightarrow> World" where
  "detectCollisions w =
    (let (ks, w') = collideAll (projectiles w) w in w'\<lparr>projectiles := ks\<rparr>)"

subsection \<open>Pickups, ammo, waves, particles\<close>

definition nearPlayer :: "World \<Rightarrow> Bolt \<Rightarrow> bool" where
  "nearPlayer w b \<longleftrightarrow>
    (let dx = p_x (player w) - b_x b;
         dy = p_y (player w) - b_y b
     in dx * dx + dy * dy < 1600)"

definition collectBolt :: "Bolt \<Rightarrow> World \<Rightarrow> Bolt \<times> World" where
  "collectBolt b w =
    (if \<not> collected b \<and> nearPlayer w b
     then (b\<lparr>collected := True, sparkle := sparkle b + 0.1\<rparr>,
           spawnParticles (b_x b) (b_y b) ''#f7c94b'' 5 3
             (w\<lparr>bolts := bolts w + 1, totalBolts := totalBolts w + 1\<rparr>))
     else (b\<lparr>sparkle := sparkle b + 0.1\<rparr>, w))"

fun collectAll :: "Bolt list \<Rightarrow> World \<Rightarrow> Bolt list \<times> World" where
  "collectAll [] w = ([], w)"
| "collectAll (b # bs) w =
    (let (b', w1) = collectBolt b w;
         (bs', w2) = collectAll bs w1
     in (b' # bs', w2))"

definition collectBolts :: "World \<Rightarrow> World" where
  "collectBolts w =
    (let (bs, w') = collectAll (boltPickups w) w
     in w'\<lparr>boltPickups := filter (\<lambda>b. \<not> collected b) bs\<rparr>)"

definition regenAmmo :: "World \<Rightarrow> World option" where
  "regenAmmo w =
    (case weaponAt (weapons w) (currentWeapon w) of
       None \<Rightarrow> None
     | Some weapon \<Rightarrow>
         Some (if ammo w < ammoMax weapon
               then w\<lparr>ammo := min (ammoMax weapon) (ammo w + 0.1)\<rparr>
               else w))"

definition advanceWave :: "World \<Rightarrow> World" where
  "advanceWave w =
    (if length (enemies w) = 0 then spawnWave (wave w + 1) (w\<lparr>wave := wave w + 1\<rparr>) else w)"

definition updateParticle :: "Particle \<Rightarrow> Particle" where
  "updateParticle p =
    p\<lparr>pt_x := pt_x p + pt_vx p, pt_y := pt_y p + pt_vy p, pt_vx := pt_vx p * 0.95,
      pt_vy := pt_vy p * 0.95, life := life p - 1\<rparr>"

definition updateParticles :: "World \<Rightarrow> World" where
  "updateParticles w =
    w\<lparr>particles := filter (\<lambda>p. life p > 0) (map updateParticle (particles w))\<rparr>"

subsection \<open>One frame\<close>

text \<open>The frame from \<open>// Update player movement\<close> up to, not including,
  \<open>// Collision detection\<close>.\<close>

definition beforeCollisions :: "Input \<Rightarrow> World \<Rightarrow> World option" where
  "beforeCollisions inp w =
    (let w1 = aimPlayer (mouse_x inp) (mouse_y inp) (movePlayer (keys inp) w)
     in case (if shooting inp then shoot (now inp) w1 else Some w1) of
          None \<Rightarrow> None
        | Some w2 \<Rightarrow> Some (updateEnemies (updateProjectiles (updateInvincibility w2))))"

text \<open>The frame up to, not including, \<open>// Wave progression\<close>: collisions, pickups and the
  ammo regeneration follow.\<close>

definition untilWaveStep :: "Input \<Rightarrow> World \<Rightarrow> World option" where
  "untilWaveStep inp w =
    (case beforeCollisions inp w of
       None \<Rightarrow> None
     | Some w1 \<Rightarrow> regenAmmo (collectBolts (detectCollisions w1)))"

text \<open>
  \<open>gameLoop\<close>: the gate, then the simulation steps in the order of the source. The two
  early returns on a missing canvas or drawing context come before any access to the
  state and are left out; the drawing code and \<open>setUiState\<close> at the end only read the
  state. \<open>None\<close> is the \<open>TypeError\<close> of \<open>shoot\<close> or of the ammo regeneration when
  \<open>currentWeapon\<close> is outside the roster.
\<close>

definition gameLoop :: "Input \<Rightarrow> World \<Rightarrow> World option" where
  "gameLoop inp w =
    (if \<not> started w \<or> paused w \<or> gameOver w then Some w
     else case untilWaveStep inp w of
            None \<Rightarrow> None
          | Some w2 \<Rightarrow> Some (updateParticles (advanceWave w2)))"

text \<open>Consecutive frames, one input each.\<close>

fun gameLoops :: "Input list \<Rightarrow> World \<Rightarrow> World option" where
  "gameLoops [] w = Some w"
| "gameLoops (inp # inps) w =
    (case gameLoop inp w of None \<Rightarrow> None | Some w' \<Rightarrow> gameLoops inps w')"

section \<open>Concrete states\<close>

text \<open>The game right after the start button, with an oracle that always returns 0.\<close>

definition freshGame :: World where
  "freshGame = startGame (initialWorld (\<lambda>_. 0))"

text \<open>
  A running game late in wave 1, used to evaluate the frame on: the player at the centre
  with 5 health left, one drone with 10 health left 200 units to the right, an enemy
  projectile one step from the player, a Blaster projectile one step from the drone, and
  a pickup 10 units from the player. No key is held, the pointer is to the right of the
  player, and the oracle always returns 0.
\<close>

definition lastStand :: World where
  "lastStand =
    (initialWorld (\<lambda>_. 0))
      \<lparr>player := \<lparr>p_x = 600, p_y = 350, p_vx = 0, p_vy = 0, health = 5, maxHealth = 100,
                  angle = 0, invincible = 0\<rparr>,
       ammo := 50,
       enemies := [\<lparr>e_x = 800, e_y = 350, e_health = 10, e_maxHealth = 40, e_type = Drone,
                    e_angle = 0, shootCooldown = 50\<rparr>],
       projectiles :=
         [\<lparr>pr_x = 595, pr_y = 350, pr_vx = 5, pr_vy = 0, pr_damage = 10, isEnemy = True,
           pr_color = ''#ff3366'', pr_size = 6\<rparr>,
          \<lparr>pr_x = 790, pr_y = 350, pr_vx = 15, pr_vy = 0, pr_damage = 10, isEnemy = False,
           pr_color = ''#00d4ff'', pr_size = 6\<rparr>],
       boltPickups := [\<lparr>b_x = 610, b_y = 350, collected = False, sparkle = 0\<rparr>],
       started := True\<rparr>"

definition idleInput :: Input where
  "idleInput = \<lparr>keys = {}, mouse_x = 700, mouse_y = 350, shooting = False, now = 1000000\<rparr>"

text \<open>The same game when the collision pass of that frame starts: projectiles and drone
  have moved, the drone has turned to the player.\<close>

definition lastStandMoved :: World where
  "lastStandMoved =
    lastStand
      \<lparr>enemies := [\<lparr>e_x = 798, e_y = 350, e_health = 10, e_maxHealth = 40, e_type = Drone,
                    e_angle = pi, shootCooldown = 49\<rparr>],
       projectiles :=
         [\<lparr>pr_x = 600, pr_y = 350, pr_vx = 5, pr_vy = 0, pr_damage = 10, isEnemy = True,
           pr_color = ''#ff3366'', pr_size = 6\<rparr>,
          \<lparr>pr_x = 805, pr_y = 350, pr_vx = 15, pr_vy = 0, pr_damage = 10, isEnemy = False,
           pr_color = ''#00d4ff'', pr_size = 6\<rparr>]\<rparr>"


text \<open>
  Two states late in a game. In both the player has run into the top left corner and keeps
  pushing into it: the keys \<open>a\<close> and \<open>w\<close> are held, the velocity is \<open>-5\<close> on both axes and
  the position stays clamped at \<open>(30, 30)\<close>; the pointer is to the right on the player's
  row, so that the facing angle is 0.
\<close>

definition cornerInput :: Input where
  "cornerInput =
    \<lparr>keys = {''a'', ''w''}, mouse_x = 700, mouse_y = 30, shooting = False, now = 1000000\<rparr>"

text \<open>
  Wave 4 with one tank left. Waves 1 to 3 are cleared (21 drones) and the ten drones of
  wave 4 are dead, which makes the score 1550 and 93 pickups, all collected and none spent.
  The player has taken six tank hits of 15, so 10 health is left. The tank holds its
  position 150 units to the right and fired 24 frames ago: its projectile, of damage 15 and
  speed 5, is 30 units from the player, its cooldown is at 66.
\<close>

definition tankVolley :: World where
  "tankVolley =
    (initialWorld (\<lambda>_. 0))
      \<lparr>player := \<lparr>p_x = 30, p_y = 30, p_vx = - 5, p_vy = - 5, health = 10, maxHealth = 100,
                  angle = 0, invincible = 0\<rparr>,
       ammo := 42, bolts := 93, totalBolts := 93,
       enemies := [\<lparr>e_x = 180, e_y = 30, e_health = 210, e_maxHealth = 210, e_type = Tank,
                    e_angle = pi, shootCooldown = 66\<rparr>],
       projectiles :=
         [\<lparr>pr_x = 60, pr_y = 30, pr_vx = - 5, pr_vy = 0, pr_damage = 15, isEnemy = True,
           pr_color = ''#ff3366'', pr_size = 6\<rparr>],
       wave := 4, score := 1550, started := True, lastShot := 998000, drawn := 30000\<rparr>"

text \<open>
  Wave 1 with two drones left, both to the right of the player on its row and moving in;
  the nearer one is intact, the farther one has 10 health left. Three drones are dead,
  which makes the score 150 and nine pickups, all collected. A Blaster projectile, fired
  from the corner along the row, will reach both drones in the next frame.
\<close>

definition twoDrones :: World where
  "twoDrones =
    (initialWorld (\<lambda>_. 0))
      \<lparr>player := \<lparr>p_x = 30, p_y = 30, p_vx = - 5, p_vy = - 5, health = 100, maxHealth = 100,
                  angle = 0, invincible = 0\<rparr>,
       ammo := 80, bolts := 9, totalBolts := 9,
       enemies := [\<lparr>e_x = 230, e_y = 30, e_health = 40, e_maxHealth = 40, e_type = Drone,
                    e_angle = pi, shootCooldown = 57\<rparr>,
                   \<lparr>e_x = 240, e_y = 30, e_health = 10, e_maxHealth = 40, e_type = Drone,
                    e_angle = pi, shootCooldown = 23\<rparr>],
       projectiles :=
         [\<lparr>pr_x = 195, pr_y = 30, pr_vx = 15, pr_vy = 0, pr_damage = 10, isEnemy = False,
           pr_color = ''#00d4ff'', pr_size = 6\<rparr>],
       score := 150, started := True, lastShot := 999000, drawn := 2000\<rparr>"

section \<open>Auxiliary facts\<close>

subsection \<open>What spawning leaves alone\<close>

lemma spawnParticles_frame [simp]:
  "player (spawnParticles x y c n sp w) = player w"
  "weapons (spawnParticles x y c n sp w) = weapons w"
  "currentWeapon (spawnParticles x y c n sp w) = currentWeapon w"
  "ammo (spawnParticles x y c n sp w) = ammo w"
  "bolts (spawnParticles x y c n sp w) = bolts w"
  "totalBolts (spawnParticles x y c n sp w) = totalBolts w"
  "enemies (spawnParticles x y c n sp w) = enemies w"
  "projectiles (spawnParticles x y c n sp w) = projectiles w"
  "boltPickups (spawnParticles x y c n sp w) = boltPickups w"
  "wave (spawnParticles x y c n sp w) = wave w"
  "score (spawnParticles x y c n sp w) = score w"
  "gameOver (spawnParticles x y c n sp w) = gameOver w"
  "paused (spawnParticles x y c n sp w) = paused w"
  "started (spawnParticles x y c n sp w) = started w"
  "lastShot (spawnParticles x y c n sp w) = lastShot w"
  "rand (spawnParticles x y c n sp w) = rand w"
  "drawn (spawnParticles x y c n sp w) = drawn w + 4 * n"
  "length (particles (spawnParticles x y c n sp w)) = length (particles w) + n"
  by (induction n arbitrary: w; simp add: Let_def)+

lemma spawnBolts_frame [simp]:
  "player (spawnBolts x y n w) = player w"
  "weapons (spawnBolts x y n w) = weapons w"
  "currentWeapon (spawnBolts x y n w) = currentWeapon w"
  "ammo (spawnBolts x y n w) = ammo w"
  "bolts (spawnBolts x y n w) = bolts w"
  "totalBolts (spawnBolts x y n w) = totalBolts w"
  "enemies (spawnBolts x y n w) = enemies w"
  "projectiles (spawnBolts x y n w) = projectiles w"
  "particles (spawnBolts x y n w) = particles w"
  "wave (spawnBolts x y n w) = wave w"
  "score (spawnBolts x y n w) = score w"
  "gameOver (spawnBolts x y n w) = gameOver w"
  "paused (spawnBolts x y n w) = paused w"
  "started (spawnBolts x y n w) = started w"
  "lastShot (spawnBolts x y n w) = lastShot w"
  "rand (spawnBolts x y n w) = rand w"
  "drawn (spawnBolts x y n w) = drawn w + 3 * n"
  "length (boltPickups (spawnBolts x y n w)) = length (boltPickups w) + n"
  by (induction n arbitrary: w; simp add: Let_def)+

lemma speed15: "sqrt ((cos a * 15)\<^sup>2 + (sin a * 15)\<^sup>2) = 15"
proof -
  have c: "(cos a)\<^sup>2 = 1 - (sin a)\<^sup>2"
    using sin_cos_squared_add [of a] by linarith
  have "(cos a * 15)\<^sup>2 + (sin a * 15)\<^sup>2 = 15\<^sup>2"
    unfolding power_mult_distrib c by (simp add: algebra_simps)
  then show ?thesis by simp
qed

lemma offset_range:
  fixes r s :: real
  assumes "0 \<le> r" "r < 1" "0 \<le> s"
  shows "- (s / 2) \<le> (r - 0.5) * s \<and> (r - 0.5) * s \<le> s / 2"
proof -
  have "(r - 0.5) * s \<le> 0.5 * s" using assms by (intro mult_right_mono) auto
  moreover have "(- 0.5) * s \<le> (r - 0.5) * s" using assms by (intro mult_right_mono) auto
  ultimately show ?thesis by simp
qed

lemma spawnEnemies_frame [simp]:
  "player (spawnEnemies wv n w) = player w"
  "weapons (spawnEnemies wv n w) = weapons w"
  "currentWeapon (spawnEnemies wv n w) = currentWeapon w"
  "ammo (spawnEnemies wv n w) = ammo w"
  "bolts (spawnEnemies wv n w) = bolts w"
  "totalBolts (spawnEnemies wv n w) = totalBolts w"
  "projectiles (spawnEnemies wv n w) = projectiles w"
  "particles (spawnEnemies wv n w) = particles w"
  "boltPickups (spawnEnemies wv n w) = boltPickups w"
  "wave (spawnEnemies wv n w) = wave w"
  "score (spawnEnemies wv n w) = score w"
  "gameOver (spawnEnemies wv n w) = gameOver w"
  "paused (spawnEnemies wv n w) = paused w"
  "started (spawnEnemies wv n w) = started w"
  "lastShot (spawnEnemies wv n w) = lastShot w"
  "rand (spawnEnemies wv n w) = rand w"
  by (induction n arbitrary: w; simp add: spawnEnemy_def Let_def)+

lemma spawnWave_frame [simp]:
  "player (spawnWave wv w) = player w"
  "weapons (spawnWave wv w) = weapons w"
  "currentWeapon (spawnWave wv w) = currentWeapon w"
  "ammo (spawnWave wv w) = ammo w"
  "bolts (spawnWave wv w) = bolts w"
  "totalBolts (spawnWave wv w) = totalBolts w"
  "projectiles (spawnWave wv w) = projectiles w"
  "particles (spawnWave wv w) = particles w"
  "boltPickups (spawnWave wv w) = boltPickups w"
  "wave (spawnWave wv w) = wave w"
  "score (spawnWave wv w) = score w"
  "gameOver (spawnWave wv w) = gameOver w"
  "paused (spawnWave wv w) = paused w"
  "started (spawnWave wv w) = started w"
  "lastShot (spawnWave wv w) = lastShot w"
  "rand (spawnWave wv w) = rand w"
  by (simp_all add: spawnWave_def Let_def)

lemma spawnEnemy_enemies:
  "\<exists>e. enemies (spawnEnemy wv w) = enemies w @ [e]
       \<and> e_type e = (if wv > 3 \<and> rand w (drawn w + 2) < 0.2 then Tank else Drone)
       \<and> e_health e = e_maxHealth e
       \<and> e_health e = (30 + 10 * real wv) * (if e_type e = Tank then 3 else 1)"
  by (simp add: spawnEnemy_def Let_def)

lemma spawnEnemies_enemies:
  assumes step: "\<And>v. \<exists>e. enemies (spawnEnemy wv v) = enemies v @ [e] \<and> P e"
  shows "\<exists>new. enemies (spawnEnemies wv n w) = enemies w @ new \<and> length new = n
        \<and> (\<forall>e \<in> set new. P e)"
proof (induction n arbitrary: w)
  case 0
  show ?case by simp
next
  case (Suc n)
  obtain e where e: "enemies (spawnEnemy wv w) = enemies w @ [e]" "P e"
    using step by blast
  obtain new where new: "enemies (spawnEnemies wv n (spawnEnemy wv w)) = enemies (spawnEnemy wv w) @ new"
      "length new = n" "\<forall>e \<in> set new. P e"
    using Suc.IH by blast
  have "enemies (spawnEnemies wv (Suc n) w) = enemies w @ (e # new)"
    using e new by simp
  moreover have "length (e # new) = Suc n" using new by simp
  moreover have "\<forall>x \<in> set (e # new). P x" using e new by simp
  ultimately show ?case by blast
qed

lemma shoot_result:
  assumes "weaponAt (weapons w) (currentWeapon w) = Some weapon"
  shows "shoot t w =
    (if t - lastShot w \<ge> fireRate weapon \<and> ammo w \<ge> ammoCost weapon
     then Some (spawnParticles
                 (p_x (player w) + cos (angle (player w) + (rand w (drawn w) - 0.5) * spread weapon) * 30)
                 (p_y (player w) + sin (angle (player w) + (rand w (drawn w) - 0.5) * spread weapon) * 30)
                 (color weapon) 5 2
                 (w\<lparr>lastShot := t, ammo := ammo w - ammoCost weapon, drawn := drawn w + 1,
                    projectiles := projectiles w @
                      [\<lparr>pr_x = p_x (player w) + cos (angle (player w) + (rand w (drawn w) - 0.5) * spread weapon) * 30,
                        pr_y = p_y (player w) + sin (angle (player w) + (rand w (drawn w) - 0.5) * spread weapon) * 30,
                        pr_vx = cos (angle (player w) + (rand w (drawn w) - 0.5) * spread weapon) * 15,
                        pr_vy = sin (angle (player w) + (rand w (drawn w) - 0.5) * spread weapon) * 15,
                        pr_damage = damage weapon * real (level weapon), isEnemy = False,
                        pr_color = color weapon, pr_size = projectileSize weapon\<rparr>]\<rparr>))
     else Some w)"
  using assms by (simp add: shoot_def Let_def)

lemma shoot_cooling:
  assumes "weaponAt (weapons w) (currentWeapon w) = Some weapon"
    and "t - lastShot w < fireRate weapon"
  shows "shoot t w = Some w"
  using assms by (simp add: shoot_def)

lemma freshGame_fields:
  "weapons freshGame = initialWeapons" "currentWeapon freshGame = 0" "ammo freshGame = 100"
  "lastShot freshGame = 0" "projectiles freshGame = []" "started freshGame"
  by (simp_all add: freshGame_def startGame_def initialWorld_def)

lemma shoot_length:
  assumes "weaponAt (weapons w) (currentWeapon w) = Some weapon"
  shows "\<exists>w'. shoot t w = Some w'
     \<and> length (projectiles w') = length (projectiles w) +
          (if fireRate weapon \<le> t - lastShot w \<and> ammoCost weapon \<le> ammo w then 1 else 0)"
  by (simp add: shoot_result [OF assms])

subsection \<open>What the collision pass leaves alone\<close>

lemma hitEnemy_frame [simp]:
  "player (hitEnemy p i w) = player w"
  "weapons (hitEnemy p i w) = weapons w"
  "currentWeapon (hitEnemy p i w) = currentWeapon w"
  "ammo (hitEnemy p i w) = ammo w"
  "bolts (hitEnemy p i w) = bolts w"
  "totalBolts (hitEnemy p i w) = totalBolts w"
  "projectiles (hitEnemy p i w) = projectiles w"
  "wave (hitEnemy p i w) = wave w"
  "gameOver (hitEnemy p i w) = gameOver w"
  "paused (hitEnemy p i w) = paused w"
  "started (hitEnemy p i w) = started w"
  "lastShot (hitEnemy p i w) = lastShot w"
  "rand (hitEnemy p i w) = rand w"
  by (simp_all add: hitEnemy_def Let_def)

lemma scanEnemies_frame:
  assumes "scanEnemies p n w = Some w'"
  shows "player w' = player w \<and> weapons w' = weapons w \<and> currentWeapon w' = currentWeapon w
    \<and> ammo w' = ammo w \<and> bolts w' = bolts w \<and> totalBolts w' = totalBolts w
    \<and> projectiles w' = projectiles w \<and> wave w' = wave w \<and> gameOver w' = gameOver w
    \<and> paused w' = paused w \<and> started w' = started w \<and> lastShot w' = lastShot w
    \<and> rand w' = rand w"
  using assms by (induction n) (auto split: if_splits)

lemma hitPlayer_frame:
  assumes "hitPlayer p w = Some w'"
  shows "weapons w' = weapons w \<and> currentWeapon w' = currentWeapon w
    \<and> ammo w' = ammo w \<and> bolts w' = bolts w \<and> totalBolts w' = totalBolts w
    \<and> enemies w' = enemies w \<and> boltPickups w' = boltPickups w \<and> score w' = score w
    \<and> projectiles w' = projectiles w \<and> wave w' = wave w
    \<and> paused w' = paused w \<and> started w' = started w \<and> lastShot w' = lastShot w
    \<and> rand w' = rand w \<and> maxHealth (player w') = maxHealth (player w)
    \<and> p_x (player w') = p_x (player w) \<and> p_y (player w') = p_y (player w)"
  using assms by (auto simp add: hitPlayer_def Let_def split: if_splits)

lemma collideProjectile_frame [simp]:
  "weapons (snd (collideProjectile p w)) = weapons w"
  "currentWeapon (snd (collideProjectile p w)) = currentWeapon w"
  "ammo (snd (collideProjectile p w)) = ammo w"
  "bolts (snd (collideProjectile p w)) = bolts w"
  "totalBolts (snd (collideProjectile p w)) = totalBolts w"
  "projectiles (snd (collideProjectile p w)) = projectiles w"
  "wave (snd (collideProjectile p w)) = wave w"
  "paused (snd (collideProjectile p w)) = paused w"
  "started (snd (collideProjectile p w)) = started w"
  "lastShot (snd (collideProjectile p w)) = lastShot w"
  "rand (snd (collideProjectile p w)) = rand w"
  "maxHealth (player (snd (collideProjectile p w))) = maxHealth (player w)"
  "p_x (player (snd (collideProjectile p w))) = p_x (player w)"
  "p_y (player (snd (collideProjectile p w))) = p_y (player w)"
  by (auto simp add: collideProjectile_def split: option.splits
      dest: scanEnemies_frame hitPlayer_frame)

lemma collideAll_frame [simp]:
  "weapons (snd (collideAll ps w)) = weapons w"
  "currentWeapon (snd (collideAll ps w)) = currentWeapon w"
  "ammo (snd (collideAll ps w)) = ammo w"
  "bolts (snd (collideAll ps w)) = bolts w"
  "totalBolts (snd (collideAll ps w)) = totalBolts w"
  "projectiles (snd (collideAll ps w)) = projectiles w"
  "wave (snd (collideAll ps w)) = wave w"
  "paused (snd (collideAll ps w)) = paused w"
  "started (snd (collideAll ps w)) = started w"
  "lastShot (snd (collideAll ps w)) = lastShot w"
  "rand (snd (collideAll ps w)) = rand w"
  "maxHealth (player (snd (collideAll ps w))) = maxHealth (player w)"
  "p_x (player (snd (collideAll ps w))) = p_x (player w)"
  "p_y (player (snd (collideAll ps w))) = p_y (player w)"
  by (induction ps arbitrary: w; simp add: case_prod_beta Let_def)+

lemma detectCollisions_frame [simp]:
  "weapons (detectCollisions w) = weapons w"
  "currentWeapon (detectCollisions w) = currentWeapon w"
  "ammo (detectCollisions w) = ammo w"
  "bolts (detectCollisions w) = bolts w"
  "totalBolts (detectCollisions w) = totalBolts w"
  "wave (detectCollisions w) = wave w"
  "paused (detectCollisions w) = paused w"
  "started (detectCollisions w) = started w"
  "lastShot (detectCollisions w) = lastShot w"
  "rand (detectCollisions w) = rand w"
  "maxHealth (player (detectCollisions w)) = maxHealth (player w)"
  "p_x (player (detectCollisions w)) = p_x (player w)"
  "p_y (player (detectCollisions w)) = p_y (player w)"
  by (simp_all add: detectCollisions_def case_prod_beta)

subsection \<open>What the pickup pass leaves alone\<close>

lemma collectBolt_frame [simp]:
  "player (snd (collectBolt b w)) = player w"
  "weapons (snd (collectBolt b w)) = weapons w"
  "currentWeapon (snd (collectBolt b w)) = currentWeapon w"
  "ammo (snd (collectBolt b w)) = ammo w"
  "enemies (snd (collectBolt b w)) = enemies w"
  "projectiles (snd (collectBolt b w)) = projectiles w"
  "boltPickups (snd (collectBolt b w)) = boltPickups w"
  "wave (snd (collectBolt b w)) = wave w"
  "score (snd (collectBolt b w)) = score w"
  "gameOver (snd (collectBolt b w)) = gameOver w"
  "paused (snd (collectBolt b w)) = paused w"
  "started (snd (collectBolt b w)) = started w"
  "lastShot (snd (collectBolt b w)) = lastShot w"
  "rand (snd (collectBolt b w)) = rand w"
  by (simp_all add: collectBolt_def)

lemma collectAll_frame [simp]:
  "player (snd (collectAll bs w)) = player w"
  "weapons (snd (collectAll bs w)) = weapons w"
  "currentWeapon (snd (collectAll bs w)) = currentWeapon w"
  "ammo (snd (collectAll bs w)) = ammo w"
  "enemies (snd (collectAll bs w)) = enemies w"
  "projectiles (snd (collectAll bs w)) = projectiles w"
  "boltPickups (snd (collectAll bs w)) = boltPickups w"
  "wave (snd (collectAll bs w)) = wave w"
  "score (snd (collectAll bs w)) = score w"
  "gameOver (snd (collectAll bs w)) = gameOver w"
  "paused (snd (collectAll bs w)) = paused w"
  "started (snd (collectAll bs w)) = started w"
  "lastShot (snd (collectAll bs w)) = lastShot w"
  "rand (snd (collectAll bs w)) = rand w"
  by (induction bs arbitrary: w; simp add: case_prod_beta Let_def)+

lemma collectBolts_frame [simp]:
  "player (collectBolts w) = player w"
  "weapons (collectBolts w) = weapons w"
  "currentWeapon (collectBolts w) = currentWeapon w"
  "ammo (collectBolts w) = ammo w"
  "enemies (collectBolts w) = enemies w"
  "projectiles (collectBolts w) = projectiles w"
  "wave (collectBolts w) = wave w"
  "score (collectBolts w) = score w"
  "gameOver (collectBolts w) = gameOver w"
  "paused (collectBolts w) = paused w"
  "started (collectBolts w) = started w"
  "lastShot (collectBolts w) = lastShot w"
  "rand (collectBolts w) = rand w"
  by (simp_all add: collectBolts_def case_prod_beta)

subsection \<open>The steps before the collision pass\<close>

lemma shoot_frame:
  assumes "shoot t w = Some w'"
  shows "player w' = player w \<and> weapons w' = weapons w \<and> currentWeapon w' = currentWeapon w
    \<and> bolts w' = bolts w \<and> totalBolts w' = totalBolts w \<and> enemies w' = enemies w
    \<and> boltPickups w' = boltPickups w \<and> wave w' = wave w \<and> score w' = score w
    \<and> gameOver w' = gameOver w \<and> paused w' = paused w \<and> started w' = started w
    \<and> rand w' = rand w"
proof (cases "weaponAt (weapons w) (currentWeapon w)")
  case None
  then show ?thesis using assms by (simp add: shoot_def)
next
  case (Some weapon)
  show ?thesis
  proof (cases "fireRate weapon \<le> t - lastShot w \<and> ammoCost weapon \<le> ammo w")
    case True
    then show ?thesis
      using assms unfolding shoot_result [OF Some] by (simp only: if_True) auto
  next
    case False
    then show ?thesis
      using assms unfolding shoot_result [OF Some] by (simp only: if_False) simp
  qed
qed

lemma updateEnemyList_length [simp]:
  "length (fst (updateEnemyList pl es)) = length es"
  by (induction es) (simp_all add: case_prod_beta)

lemma movePlayer_frame [simp]:
  "weapons (movePlayer ks w) = weapons w"
  "currentWeapon (movePlayer ks w) = currentWeapon w"
  "ammo (movePlayer ks w) = ammo w"
  "bolts (movePlayer ks w) = bolts w"
  "totalBolts (movePlayer ks w) = totalBolts w"
  "enemies (movePlayer ks w) = enemies w"
  "projectiles (movePlayer ks w) = projectiles w"
  "boltPickups (movePlayer ks w) = boltPickups w"
  "wave (movePlayer ks w) = wave w"
  "score (movePlayer ks w) = score w"
  "gameOver (movePlayer ks w) = gameOver w"
  "paused (movePlayer ks w) = paused w"
  "started (movePlayer ks w) = started w"
  "lastShot (movePlayer ks w) = lastShot w"
  "rand (movePlayer ks w) = rand w"
  "health (player (movePlayer ks w)) = health (player w)"
  "maxHealth (player (movePlayer ks w)) = maxHealth (player w)"
  "invincible (player (movePlayer ks w)) = invincible (player w)"
  by (simp_all add: movePlayer_def Let_def split del: if_split)

lemma aimPlayer_frame [simp]:
  "weapons (aimPlayer mx my w) = weapons w"
  "currentWeapon (aimPlayer mx my w) = currentWeapon w"
  "ammo (aimPlayer mx my w) = ammo w"
  "bolts (aimPlayer mx my w) = bolts w"
  "totalBolts (aimPlayer mx my w) = totalBolts w"
  "enemies (aimPlayer mx my w) = enemies w"
  "projectiles (aimPlayer mx my w) = projectiles w"
  "boltPickups (aimPlayer mx my w) = boltPickups w"
  "wave (aimPlayer mx my w) = wave w"
  "score (aimPlayer mx my w) = score w"
  "gameOver (aimPlayer mx my w) = gameOver w"
  "paused (aimPlayer mx my w) = paused w"
  "started (aimPlayer mx my w) = started w"
  "lastShot (aimPlayer mx my w) = lastShot w"
  "rand (aimPlayer mx my w) = rand w"
  "health (player (aimPlayer mx my w)) = health (player w)"
  "maxHealth (player (aimPlayer mx my w)) = maxHealth (player w)"
  "invincible (player (aimPlayer mx my w)) = invincible (player w)"
  by (simp_all add: aimPlayer_def)

lemma updateInvincibility_frame [simp]:
  "weapons (updateInvincibility w) = weapons w"
  "currentWeapon (updateInvincibility w) = currentWeapon w"
  "ammo (updateInvincibility w) = ammo w"
  "bolts (updateInvincibility w) = bolts w"
  "totalBolts (updateInvincibility w) = totalBolts w"
  "enemies (updateInvincibility w) = enemies w"
  "projectiles (updateInvincibility w) = projectiles w"
  "boltPickups (updateInvincibility w) = boltPickups w"
  "wave (updateInvincibility w) = wave w"
  "score (updateInvincibility w) = score w"
  "gameOver (updateInvincibility w) = gameOver w"
  "paused (updateInvincibility w) = paused w"
  "started (updateInvincibility w) = started w"
  "lastShot (updateInvincibility w) = lastShot w"
  "rand (updateInvincibility w) = rand w"
  "health (player (updateInvincibility w)) = health (player w)"
  "maxHealth (player (updateInvincibility w)) = maxHealth (player w)"
  "p_x (player (updateInvincibility w)) = p_x (player w)"
  "p_y (player (updateInvincibility w)) = p_y (player w)"
  "invincible (player (updateInvincibility w)) =
     (if invincible (player w) > 0 then invincible (player w) - 1 else invincible (player w))"
  by (simp_all add: updateInvincibility_def)

lemma updateProjectiles_frame [simp]:
  "player (updateProjectiles w) = player w"
  "weapons (updateProjectiles w) = weapons w"
  "currentWeapon (updateProjectiles w) = currentWeapon w"
  "ammo (updateProjectiles w) = ammo w"
  "bolts (updateProjectiles w) = bolts w"
  "totalBolts (updateProjectiles w) = totalBolts w"
  "enemies (updateProjectiles w) = enemies w"
  "boltPickups (updateProjectiles w) = boltPickups w"
  "wave (updateProjectiles w) = wave w"
  "score (updateProjectiles w) = score w"
  "gameOver (updateProjectiles w) = gameOver w"
  "paused (updateProjectiles w) = paused w"
  "started (updateProjectiles w) = started w"
  "lastShot (updateProjectiles w) = lastShot w"
  "rand (updateProjectiles w) = rand w"
  by (simp_all add: updateProjectiles_def)

lemma updateEnemies_frame [simp]:
  "player (updateEnemies w) = player w"
  "weapons (updateEnemies w) = weapons w"
  "currentWeapon (updateEnemies w) = currentWeapon w"
  "ammo (updateEnemies w) = ammo w"
  "bolts (updateEnemies w) = bolts w"
  "totalBolts (updateEnemies w) = totalBolts w"
  "boltPickups (updateEnemies w) = boltPickups w"
  "wave (updateEnemies w) = wave w"
  "score (updateEnemies w) = score w"
  "gameOver (updateEnemies w) = gameOver w"
  "paused (updateEnemies w) = paused w"
  "started (updateEnemies w) = started w"
  "lastShot (updateEnemies w) = lastShot w"
  "rand (updateEnemies w) = rand w"
  "length (enemies (updateEnemies w)) = length (enemies w)"
  by (simp_all add: updateEnemies_def case_prod_beta Let_def)

text \<open>The state the collision pass starts from, for either value of \<open>shooting\<close>.\<close>

lemma beforeCollisions_cases:
  assumes "beforeCollisions inp w = Some w1"
  shows "\<exists>w2. w1 = updateEnemies (updateProjectiles (updateInvincibility w2))
      \<and> (if shooting inp
          then shoot (now inp) (aimPlayer (mouse_x inp) (mouse_y inp) (movePlayer (keys inp) w))
                 = Some w2
          else w2 = aimPlayer (mouse_x inp) (mouse_y inp) (movePlayer (keys inp) w))"
proof (cases "shooting inp")
  case False
  then show ?thesis using assms by (simp add: beforeCollisions_def Let_def)
next
  case True
  then show ?thesis
    using assms
    by (cases "shoot (now inp) (aimPlayer (mouse_x inp) (mouse_y inp) (movePlayer (keys inp) w))")
       (simp_all add: beforeCollisions_def Let_def)
qed

lemma beforeCollisions_frame:
  assumes "beforeCollisions inp w = Some w1"
  shows "weapons w1 = weapons w \<and> currentWeapon w1 = currentWeapon w
    \<and> bolts w1 = bolts w \<and> totalBolts w1 = totalBolts w
    \<and> boltPickups w1 = boltPickups w \<and> wave w1 = wave w \<and> score w1 = score w
    \<and> gameOver w1 = gameOver w \<and> paused w1 = paused w \<and> started w1 = started w
    \<and> rand w1 = rand w \<and> length (enemies w1) = length (enemies w)
    \<and> health (player w1) = health (player w) \<and> maxHealth (player w1) = maxHealth (player w)"
proof -
  let ?v = "aimPlayer (mouse_x inp) (mouse_y inp) (movePlayer (keys inp) w)"
  from beforeCollisions_cases [OF assms]
  obtain w2 where e: "w1 = updateEnemies (updateProjectiles (updateInvincibility w2))"
    and c: "if shooting inp then shoot (now inp) ?v = Some w2 else w2 = ?v"
    by (elim exE conjE)
  have k: "player w2 = player ?v \<and> weapons w2 = weapons ?v
    \<and> currentWeapon w2 = currentWeapon ?v
    \<and> bolts w2 = bolts ?v \<and> totalBolts w2 = totalBolts ?v \<and> enemies w2 = enemies ?v
    \<and> boltPickups w2 = boltPickups ?v \<and> wave w2 = wave ?v \<and> score w2 = score ?v
    \<and> gameOver w2 = gameOver ?v \<and> paused w2 = paused ?v \<and> started w2 = started ?v
    \<and> rand w2 = rand ?v"
  proof (cases "shooting inp")
    case True
    then have "shoot (now inp) ?v = Some w2" using c by simp
    then show ?thesis by (rule shoot_frame)
  next
    case False
    then have "w2 = ?v" using c by simp
    then show ?thesis by simp
  qed
  show ?thesis
    unfolding e using k by simp
qed

lemma regenAmmo_frame:
  assumes "regenAmmo w = Some w'"
  shows "player w' = player w \<and> weapons w' = weapons w \<and> currentWeapon w' = currentWeapon w
    \<and> bolts w' = bolts w \<and> totalBolts w' = totalBolts w \<and> enemies w' = enemies w
    \<and> projectiles w' = projectiles w \<and> boltPickups w' = boltPickups w
    \<and> wave w' = wave w \<and> score w' = score w \<and> gameOver w' = gameOver w
    \<and> paused w' = paused w \<and> started w' = started w \<and> rand w' = rand w"
proof (cases "weaponAt (weapons w) (currentWeapon w)")
  case None
  then show ?thesis using assms by (simp add: regenAmmo_def)
next
  case (Some weapon)
  then have "w' = (if ammo w < ammoMax weapon
               then w\<lparr>ammo := min (ammoMax weapon) (ammo w + 0.1)\<rparr> else w)"
    using assms by (simp add: regenAmmo_def)
  then show ?thesis by simp
qed

lemma untilWaveStep_wave:
  assumes "untilWaveStep inp w = Some w2"
  shows "wave w2 = wave w"
proof -
  have "\<exists>w1. beforeCollisions inp w = Some w1
      \<and> regenAmmo (collectBolts (detectCollisions w1)) = Some w2"
    using assms by (cases "beforeCollisions inp w") (simp_all add: untilWaveStep_def)
  then obtain w1 where b: "beforeCollisions inp w = Some w1"
    and r: "regenAmmo (collectBolts (detectCollisions w1)) = Some w2"
    by (elim exE conjE)
  show ?thesis
    using regenAmmo_frame [OF r] beforeCollisions_frame [OF b] by simp
qed

lemma spawnWave_length:
  "length (enemies (spawnWave n w)) =
     length (enemies w) + 3 + 2 * n + (if n mod 5 = 0 then 1 else 0)"
proof -
  have "\<exists>e. enemies (spawnEnemy n v) = enemies v @ [e] \<and> True" for v
    by (simp add: spawnEnemy_def Let_def)
  from spawnEnemies_enemies [of n "\<lambda>_. True" "3 + 2 * n" w, OF this]
  obtain new where "enemies (spawnEnemies n (3 + 2 * n) w) = enemies w @ new"
    "length new = 3 + 2 * n" by (elim exE conjE)
  then show ?thesis
    by (simp add: spawnWave_def Let_def mult.commute)
qed

subsection \<open>The concrete frame, evaluated\<close>

lemma sqrt_40000: "sqrt 40000 = 200"
proof -
  have "sqrt (200\<^sup>2) = 200" by simp
  then show ?thesis by simp
qed

lemma lastStand_fields:
  "started lastStand" "\<not> paused lastStand" "\<not> gameOver lastStand"
  "weapons lastStand = initialWeapons" "currentWeapon lastStand = 0"
  "ammo lastStand = 50" "bolts lastStand = 0" "wave lastStand = 1" "score lastStand = 0"
  "health (player lastStand) = 5" "maxHealth (player lastStand) = 100"
  "invincible (player lastStand) = 0"
  by (simp_all add: lastStand_def initialWorld_def)

lemma lastStand_before: "beforeCollisions idleInput lastStand = Some lastStandMoved"
  by (simp add: beforeCollisions_def idleInput_def lastStand_def lastStandMoved_def
      initialWorld_def
      movePlayer_def aimPlayer_def atan2_def updateInvincibility_def updateProjectiles_def
      advanceProjectile_def onField_def updateEnemies_def updateEnemy_def
      CANVAS_WIDTH_def CANVAS_HEIGHT_def sqrt_40000 Let_def)

lemma lastStandMoved_fields:
  "ammo lastStandMoved = 50" "player lastStandMoved = player lastStand"
  "weapons lastStandMoved = initialWeapons" "currentWeapon lastStandMoved = 0"
  "bolts lastStandMoved = 0"
  by (simp_all add: lastStandMoved_def lastStand_def initialWorld_def)

lemma lastStand_collisions:
  "player (detectCollisions lastStandMoved) =
     \<lparr>p_x = 600, p_y = 350, p_vx = 0, p_vy = 0, health = - 5, maxHealth = 100,
                  angle = 0, invincible = 60\<rparr>"
  "gameOver (detectCollisions lastStandMoved)"
  "enemies (detectCollisions lastStandMoved) = []"
  "score (detectCollisions lastStandMoved) = 50"
  "projectiles (detectCollisions lastStandMoved) = []"
  "boltPickups (detectCollisions lastStandMoved) =
     [\<lparr>b_x = 610, b_y = 350, collected = False, sparkle = 0\<rparr>,
      \<lparr>b_x = 798, b_y = 350, collected = False, sparkle = 0\<rparr>,
      \<lparr>b_x = 798, b_y = 350, collected = False, sparkle = 0\<rparr>,
      \<lparr>b_x = 798, b_y = 350, collected = False, sparkle = 0\<rparr>]"
  by (simp_all add: detectCollisions_def collideProjectile_def hitPlayer_def hitEnemy_def
      overlapsEnemy_def enemySize_def boltCount_def scoreValue_def lastStand_def
      lastStandMoved_def
      initialWorld_def numeral_3_eq_3 Let_def del: spawnParticles.simps)

subsection \<open>The scan over the enemies\<close>

lemma scanEnemies_none:
  assumes "\<forall>i<n. \<not> overlapsEnemy p (enemies w ! i)"
  shows "scanEnemies p n w = None"
  using assms by (induction n) simp_all

lemma scanEnemies_first:
  assumes "i < n" and "overlapsEnemy p (enemies w ! i)"
    and "\<forall>j. i < j \<and> j < n \<longrightarrow> \<not> overlapsEnemy p (enemies w ! j)"
  shows "scanEnemies p n w = Some (hitEnemy p i w)"
  using assms
proof (induction n)
  case 0
  then show ?case by simp
next
  case (Suc n)
  show ?case
  proof (cases "i = n")
    case True
    then show ?thesis using Suc.prems(2) by simp
  next
    case False
    then have lt: "i < n" using Suc.prems(1) by simp
    have no: "\<not> overlapsEnemy p (enemies w ! n)" using Suc.prems(3) lt by simp
    have "\<forall>j. i < j \<and> j < n \<longrightarrow> \<not> overlapsEnemy p (enemies w ! j)"
      using Suc.prems(3) by simp
    then have "scanEnemies p n w = Some (hitEnemy p i w)"
      using Suc.IH lt Suc.prems(2) by simp
    then show ?thesis using no by simp
  qed
qed

lemma spawnBolts_appends:
  "\<exists>new. boltPickups (spawnBolts x y n w) = boltPickups w @ new \<and> length new = n"
proof (induction n arbitrary: w)
  case 0
  show ?case by simp
next
  case (Suc n)
  let ?b = "\<lparr>b_x = x + cos (rand w (drawn w) * pi * 2) * (rand w (drawn w + 1) * 30),
             b_y = y + sin (rand w (drawn w) * pi * 2) * (rand w (drawn w + 1) * 30),
             collected = False, sparkle = rand w (drawn w + 2) * pi * 2\<rparr>"
  let ?v = "w\<lparr>boltPickups := boltPickups w @ [?b], drawn := drawn w + 3\<rparr>"
  have step: "spawnBolts x y (Suc n) w = spawnBolts x y n ?v"
    by (simp add: Let_def)
  obtain new where new: "boltPickups (spawnBolts x y n ?v) = boltPickups ?v @ new"
    "length new = n"
    using Suc.IH [of ?v] by (elim exE conjE)
  have "boltPickups (spawnBolts x y (Suc n) w) = boltPickups w @ (?b # new)"
    unfolding step new(1) by simp
  moreover have "length (?b # new) = Suc n" using new(2) by simp
  ultimately show ?case by (intro exI [of _ "?b # new"] conjI)
qed

lemma hitEnemy_effect:
  assumes "i < length (enemies w)"
  shows "if e_health (enemies w ! i) - pr_damage p \<le> 0
         then enemies (hitEnemy p i w) = take i (enemies w) @ drop (Suc i) (enemies w)
            \<and> score (hitEnemy p i w) = score w + scoreValue (e_type (enemies w ! i))
            \<and> (\<exists>new. boltPickups (hitEnemy p i w) = boltPickups w @ new
                  \<and> length new = boltCount (e_type (enemies w ! i)))
         else enemies (hitEnemy p i w) =
                (enemies w)[i := (enemies w ! i)
                   \<lparr>e_health := e_health (enemies w ! i) - pr_damage p\<rparr>]
            \<and> score (hitEnemy p i w) = score w
            \<and> boltPickups (hitEnemy p i w) = boltPickups w"
proof (cases "e_health (enemies w ! i) - pr_damage p \<le> 0")
  case True
  let ?e = "(enemies w ! i)\<lparr>e_health := e_health (enemies w ! i) - pr_damage p\<rparr>"
  let ?w1 = "spawnParticles (pr_x p) (pr_y p) (pr_color p) 8 3 (w\<lparr>enemies := (enemies w)[i := ?e]\<rparr>)"
  have bp: "boltPickups ?w1 = boltPickups w" by simp
  obtain new where new:
    "boltPickups (spawnBolts (e_x ?e) (e_y ?e) (boltCount (e_type ?e)) ?w1) = boltPickups ?w1 @ new"
    "length new = boltCount (e_type ?e)"
    using spawnBolts_appends [of "e_x ?e" "e_y ?e" "boltCount (e_type ?e)" ?w1]
    by (elim exE conjE)
  have a: "enemies (hitEnemy p i w) = take i (enemies w) @ drop (Suc i) (enemies w)"
    using True by (simp add: hitEnemy_def Let_def)
  have b: "score (hitEnemy p i w) = score w + scoreValue (e_type (enemies w ! i))"
    using True by (simp add: hitEnemy_def Let_def)
  have "boltPickups (hitEnemy p i w) = boltPickups w @ new"
    using True new(1) by (simp add: hitEnemy_def Let_def)
  moreover have "length new = boltCount (e_type (enemies w ! i))"
    using new(2) by simp
  ultimately have c: "\<exists>new. boltPickups (hitEnemy p i w) = boltPickups w @ new
                  \<and> length new = boltCount (e_type (enemies w ! i))"
    by (intro exI [of _ new] conjI)
  show ?thesis using True a b c by (simp only: if_True simp_thms)
next
  case False
  then show ?thesis by (simp add: hitEnemy_def Let_def)
qed

lemma collideAll_drops:
  assumes "collideProjectile p w = (False, w')"
  shows "fst (collideAll (p # ps) w) = fst (collideAll ps w')"
  using assms by (simp add: case_prod_beta)

subsection \<open>The frame as a whole\<close>

lemma advanceWave_frame [simp]:
  "player (advanceWave w) = player w"
  "weapons (advanceWave w) = weapons w"
  "currentWeapon (advanceWave w) = currentWeapon w"
  "ammo (advanceWave w) = ammo w"
  "bolts (advanceWave w) = bolts w"
  "totalBolts (advanceWave w) = totalBolts w"
  "projectiles (advanceWave w) = projectiles w"
  "boltPickups (advanceWave w) = boltPickups w"
  "score (advanceWave w) = score w"
  "gameOver (advanceWave w) = gameOver w"
  "paused (advanceWave w) = paused w"
  "started (advanceWave w) = started w"
  "lastShot (advanceWave w) = lastShot w"
  "rand (advanceWave w) = rand w"
  by (simp_all add: advanceWave_def)

lemma updateParticles_frame [simp]:
  "player (updateParticles w) = player w"
  "weapons (updateParticles w) = weapons w"
  "currentWeapon (updateParticles w) = currentWeapon w"
  "ammo (updateParticles w) = ammo w"
  "bolts (updateParticles w) = bolts w"
  "totalBolts (updateParticles w) = totalBolts w"
  "enemies (updateParticles w) = enemies w"
  "projectiles (updateParticles w) = projectiles w"
  "boltPickups (updateParticles w) = boltPickups w"
  "wave (updateParticles w) = wave w"
  "score (updateParticles w) = score w"
  "gameOver (updateParticles w) = gameOver w"
  "paused (updateParticles w) = paused w"
  "started (updateParticles w) = started w"
  "lastShot (updateParticles w) = lastShot w"
  "rand (updateParticles w) = rand w"
  by (simp_all add: updateParticles_def)

lemma shoot_total:
  assumes "currentWeapon w < length (weapons w)"
  shows "\<exists>w'. shoot t w = Some w'"
proof -
  have "weaponAt (weapons w) (currentWeapon w) = Some (weapons w ! currentWeapon w)"
    using assms by (simp add: weaponAt_def)
  then show ?thesis by (simp add: shoot_result)
qed

lemma beforeCollisions_total:
  assumes "currentWeapon w < length (weapons w)"
  shows "\<exists>w1. beforeCollisions inp w = Some w1"
proof (cases "shooting inp")
  case False
  then show ?thesis by (simp add: beforeCollisions_def Let_def)
next
  case True
  let ?v = "aimPlayer (mouse_x inp) (mouse_y inp) (movePlayer (keys inp) w)"
  have "currentWeapon ?v < length (weapons ?v)" using assms by simp
  then obtain w2 where "shoot (now inp) ?v = Some w2"
    using shoot_total by blast
  then show ?thesis using True by (simp add: beforeCollisions_def Let_def)
qed

lemma regenAmmo_total:
  assumes "currentWeapon w < length (weapons w)"
  shows "\<exists>w'. regenAmmo w = Some w'"
  using assms by (simp add: regenAmmo_def weaponAt_def)

lemma gameLoop_running:
  assumes "started w" "\<not> paused w" "\<not> gameOver w"
    and "currentWeapon w < length (weapons w)"
  shows "\<exists>w1 w2. beforeCollisions inp w = Some w1
      \<and> regenAmmo (collectBolts (detectCollisions w1)) = Some w2
      \<and> gameLoop inp w = Some (updateParticles (advanceWave w2))"
proof -
  obtain w1 where b: "beforeCollisions inp w = Some w1"
    using beforeCollisions_total [OF assms(4)] by blast
  have "currentWeapon (collectBolts (detectCollisions w1))
          < length (weapons (collectBolts (detectCollisions w1)))"
    using beforeCollisions_frame [OF b] assms(4) by simp
  then obtain w2 where r: "regenAmmo (collectBolts (detectCollisions w1)) = Some w2"
    using regenAmmo_total by blast
  have "gameLoop inp w = Some (updateParticles (advanceWave w2))"
    using assms(1-3) b r by (simp add: gameLoop_def untilWaveStep_def)
  then show ?thesis using b r by (intro exI [of _ w1] exI [of _ w2] conjI)
qed


subsection \<open>Invincibility\<close>

lemma hitPlayer_invincible:
  assumes "invincible (player w) > 0"
  shows "hitPlayer p w = None"
  using assms by (simp add: hitPlayer_def Let_def)

lemma collideProjectile_invincible:
  assumes "invincible (player w) > 0"
  shows "player (snd (collideProjectile p w)) = player w"
proof (cases "isEnemy p")
  case True
  then show ?thesis
    using hitPlayer_invincible [OF assms] by (simp add: collideProjectile_def)
next
  case False
  show ?thesis
  proof (cases "scanEnemies p (length (enemies w)) w")
    case None
    then show ?thesis using False by (simp add: collideProjectile_def)
  next
    case (Some w')
    then show ?thesis
      using False scanEnemies_frame [OF Some] by (simp add: collideProjectile_def)
  qed
qed

lemma collideAll_invincible:
  assumes "invincible (player w) > 0"
  shows "player (snd (collideAll ps w)) = player w"
  using assms
proof (induction ps arbitrary: w)
  case Nil
  show ?case by simp
next
  case (Cons p ps)
  have a: "player (snd (collideProjectile p w)) = player w"
    using Cons.prems by (rule collideProjectile_invincible)
  then have "invincible (player (snd (collideProjectile p w))) > 0"
    using Cons.prems by simp
  then have "player (snd (collideAll ps (snd (collideProjectile p w))))
      = player (snd (collideProjectile p w))"
    by (rule Cons.IH)
  then show ?case using a by (simp add: case_prod_beta)
qed






lemma gameLoop_summary:
  assumes "started w" "\<not> paused w" "\<not> gameOver w"
    and "currentWeapon w < length (weapons w)"
  shows "\<exists>w1 w'. beforeCollisions inp w = Some w1 \<and> gameLoop inp w = Some w'
     \<and> player w' = player (detectCollisions w1)
     \<and> gameOver w' = gameOver (detectCollisions w1)
     \<and> score w' = score (detectCollisions w1)
     \<and> projectiles w' = projectiles (detectCollisions w1)
     \<and> bolts w' = bolts (collectBolts (detectCollisions w1))
     \<and> boltPickups w' = boltPickups (collectBolts (detectCollisions w1))
     \<and> ammo w' = (if ammo w1 < ammoMax (weapons w ! currentWeapon w)
                  then min (ammoMax (weapons w ! currentWeapon w)) (ammo w1 + 0.1)
                  else ammo w1)
     \<and> weapons w' = weapons w \<and> currentWeapon w' = currentWeapon w
     \<and> started w' \<and> \<not> paused w'
     \<and> wave w' = (if enemies (detectCollisions w1) = [] then wave w + 1 else wave w)
     \<and> length (enemies w') =
         (if enemies (detectCollisions w1) = []
          then 3 + 2 * (wave w + 1) + (if (wave w + 1) mod 5 = 0 then 1 else 0)
          else length (enemies (detectCollisions w1)))"
proof -
  from gameLoop_running [OF assms, of inp]
  obtain w1 w2 where b: "beforeCollisions inp w = Some w1"
    and r: "regenAmmo (collectBolts (detectCollisions w1)) = Some w2"
    and g: "gameLoop inp w = Some (updateParticles (advanceWave w2))"
    by blast
  let ?c = "collectBolts (detectCollisions w1)"
  note f1 = beforeCollisions_frame [OF b]
  note f2 = regenAmmo_frame [OF r]
  have look: "weaponAt (weapons ?c) (currentWeapon ?c) = Some (weapons w ! currentWeapon w)"
    using f1 assms(4) by (simp add: weaponAt_def)
  have am: "ammo w2 = (if ammo w1 < ammoMax (weapons w ! currentWeapon w)
                  then min (ammoMax (weapons w ! currentWeapon w)) (ammo w1 + 0.1)
                  else ammo w1)"
    using r look by (auto simp add: regenAmmo_def)
  have wv: "wave (advanceWave w2) = (if enemies (detectCollisions w1) = [] then wave w + 1 else wave w)"
    using f1 f2 by (simp add: advanceWave_def)
  have en: "length (enemies (advanceWave w2)) =
         (if enemies (detectCollisions w1) = []
          then 3 + 2 * (wave w + 1) + (if (wave w + 1) mod 5 = 0 then 1 else 0)
          else length (enemies (detectCollisions w1)))"
    using f1 f2 by (simp add: advanceWave_def spawnWave_length)
  let ?w' = "updateParticles (advanceWave w2)"
  have "player ?w' = player (detectCollisions w1)" using f2 by simp
  moreover have "gameOver ?w' = gameOver (detectCollisions w1)" using f2 by simp
  moreover have "score ?w' = score (detectCollisions w1)" using f2 by simp
  moreover have "projectiles ?w' = projectiles (detectCollisions w1)" using f2 by simp
  moreover have "bolts ?w' = bolts ?c" using f2 by simp
  moreover have "boltPickups ?w' = boltPickups ?c" using f2 by simp
  moreover have "ammo ?w' = (if ammo w1 < ammoMax (weapons w ! currentWeapon w)
                  then min (ammoMax (weapons w ! currentWeapon w)) (ammo w1 + 0.1)
                  else ammo w1)" using am by simp
  moreover have "weapons ?w' = weapons w" using f1 f2 by simp
  moreover have "currentWeapon ?w' = currentWeapon w" using f1 f2 by simp
  moreover have "started ?w'" using f1 f2 assms(1) by simp
  moreover have "\<not> paused ?w'" using f1 f2 assms(2) by simp
  moreover have "wave ?w' = (if enemies (detectCollisions w1) = [] then wave w + 1 else wave w)"
    using wv by simp
  moreover have "length (enemies ?w') =
         (if enemies (detectCollisions w1) = []
          then 3 + 2 * (wave w + 1) + (if (wave w + 1) mod 5 = 0 then 1 else 0)
          else length (enemies (detectCollisions w1)))"
    using en by simp
  ultimately show ?thesis
    using b g by (intro exI [of _ w1] exI [of _ ?w'] conjI)
qed

lemma lastStand_untilWave:
  "map_option enemies (untilWaveStep idleInput lastStand) = Some []"
  by (simp add: untilWaveStep_def lastStand_before regenAmmo_def weaponAt_def
      lastStandMoved_fields lastStand_collisions initialWeapons_def)

lemma lastStand_valid: "currentWeapon lastStand < length (weapons lastStand)"
  by (simp add: lastStand_fields initialWeapons_def)

subsection \<open>Bounds kept by a frame\<close>

lemma updateEnemy_projectiles:
  assumes "q \<in> set (snd (updateEnemy pl e))"
  shows "0 \<le> pr_damage q"
proof -
  have "q \<in> set (snd (updateEnemy pl e)) \<longrightarrow> pr_damage q = 15 \<or> pr_damage q = 10"
    by (simp add: updateEnemy_def Let_def bossVolley_def) auto
  then show ?thesis using assms by auto
qed

lemma updateEnemyList_projectiles:
  assumes "q \<in> set (snd (updateEnemyList pl es))"
  shows "0 \<le> pr_damage q"
  using assms
proof (induction es)
  case Nil
  then show ?case by simp
next
  case (Cons e es)
  then have "q \<in> set (snd (updateEnemy pl e)) \<or> q \<in> set (snd (updateEnemyList pl es))"
    by (simp add: case_prod_beta)
  then show ?case using Cons.IH updateEnemy_projectiles by blast
qed

lemma shoot_projectiles:
  assumes "shoot t w = Some w'" and "q \<in> set (projectiles w')"
  shows "q \<in> set (projectiles w) \<or> \<not> isEnemy q"
proof (cases "weaponAt (weapons w) (currentWeapon w)")
  case None
  then show ?thesis using assms by (simp add: shoot_def)
next
  case (Some weapon)
  show ?thesis
  proof (cases "fireRate weapon \<le> t - lastShot w \<and> ammoCost weapon \<le> ammo w")
    case True
    have "projectiles w' = projectiles w @
        [\<lparr>pr_x = p_x (player w) + cos (angle (player w) + (rand w (drawn w) - 0.5) * spread weapon) * 30,
          pr_y = p_y (player w) + sin (angle (player w) + (rand w (drawn w) - 0.5) * spread weapon) * 30,
          pr_vx = cos (angle (player w) + (rand w (drawn w) - 0.5) * spread weapon) * 15,
          pr_vy = sin (angle (player w) + (rand w (drawn w) - 0.5) * spread weapon) * 15,
          pr_damage = damage weapon * real (level weapon), isEnemy = False,
          pr_color = color weapon, pr_size = projectileSize weapon\<rparr>]"
      using assms(1) True unfolding shoot_result [OF Some] by (simp only: if_True) auto
    then show ?thesis using assms(2) by auto
  next
    case False
    then have "w' = w"
      using assms(1) unfolding shoot_result [OF Some] by (simp only: if_False) simp
    then show ?thesis using assms(2) by simp
  qed
qed

lemma shoot_ammo:
  assumes "shoot t w = Some w'" and "weaponAt (weapons w) (currentWeapon w) = Some weapon"
    and "0 \<le> ammoCost weapon" and "0 \<le> ammo w" and "ammo w \<le> ammoMax weapon"
  shows "0 \<le> ammo w' \<and> ammo w' \<le> ammoMax weapon"
proof (cases "fireRate weapon \<le> t - lastShot w \<and> ammoCost weapon \<le> ammo w")
  case True
  then have "ammo w' = ammo w - ammoCost weapon"
    using assms(1) unfolding shoot_result [OF assms(2)] by (simp only: if_True) auto
  then show ?thesis using True assms(3-5) by simp
next
  case False
  then have "w' = w"
    using assms(1) unfolding shoot_result [OF assms(2)] by (simp only: if_False) simp
  then show ?thesis using assms(4,5) by simp
qed

lemma advanceProjectile_keeps [simp]:
  "isEnemy (advanceProjectile p) = isEnemy p"
  "pr_damage (advanceProjectile p) = pr_damage p"
  by (simp_all add: advanceProjectile_def)

lemma beforeCollisions_bounds:
  assumes "beforeCollisions inp w = Some w1"
    and "weaponAt (weapons w) (currentWeapon w) = Some weapon"
    and "0 \<le> ammoCost weapon" and "0 \<le> ammo w" and "ammo w \<le> ammoMax weapon"
    and "\<forall>q \<in> set (projectiles w). isEnemy q \<longrightarrow> 0 \<le> pr_damage q"
  shows "0 \<le> ammo w1 \<and> ammo w1 \<le> ammoMax weapon
     \<and> (\<forall>q \<in> set (projectiles w1). isEnemy q \<longrightarrow> 0 \<le> pr_damage q)"
proof -
  let ?v = "aimPlayer (mouse_x inp) (mouse_y inp) (movePlayer (keys inp) w)"
  from beforeCollisions_cases [OF assms(1)]
  obtain w2 where e: "w1 = updateEnemies (updateProjectiles (updateInvincibility w2))"
    and c: "if shooting inp then shoot (now inp) ?v = Some w2 else w2 = ?v"
    by (elim exE conjE)
  have v: "weaponAt (weapons ?v) (currentWeapon ?v) = Some weapon" "0 \<le> ammo ?v"
    "ammo ?v \<le> ammoMax weapon" "projectiles ?v = projectiles w"
    using assms(2,4,5) by simp_all
  have a2: "0 \<le> ammo w2 \<and> ammo w2 \<le> ammoMax weapon"
  proof (cases "shooting inp")
    case True
    then have "shoot (now inp) ?v = Some w2" using c by simp
    then show ?thesis using v assms(3) by (intro shoot_ammo)
  next
    case False
    then show ?thesis using c v by simp
  qed
  have p2: "\<forall>q \<in> set (projectiles w2). isEnemy q \<longrightarrow> 0 \<le> pr_damage q"
  proof (cases "shooting inp")
    case True
    then have s: "shoot (now inp) ?v = Some w2" using c by simp
    show ?thesis
    proof (intro ballI impI)
      fix q assume q: "q \<in> set (projectiles w2)" "isEnemy q"
      then have "q \<in> set (projectiles ?v)" using shoot_projectiles [OF s] by blast
      then show "0 \<le> pr_damage q" using assms(6) q(2) v(4) by simp
    qed
  next
    case False
    then show ?thesis using c v(4) assms(6) by simp
  qed
  have am: "ammo w1 = ammo w2" unfolding e by simp
  have pr: "projectiles w1 =
      filter onField (map advanceProjectile (projectiles w2))
        @ snd (updateEnemyList (player (updateInvincibility w2)) (enemies w2))"
    unfolding e by (simp add: updateEnemies_def updateProjectiles_def case_prod_beta Let_def)
  have "\<forall>q \<in> set (projectiles w1). isEnemy q \<longrightarrow> 0 \<le> pr_damage q"
  proof (intro ballI impI)
    fix q assume q: "q \<in> set (projectiles w1)" "isEnemy q"
    then consider (old) "q \<in> advanceProjectile ` set (projectiles w2)"
      | (new) "q \<in> set (snd (updateEnemyList (player (updateInvincibility w2)) (enemies w2)))"
      unfolding pr by auto
    then show "0 \<le> pr_damage q"
    proof cases
      case old
      then obtain q0 where "q0 \<in> set (projectiles w2)" "q = advanceProjectile q0" by blast
      then show ?thesis using p2 q(2) by simp
    next
      case new
      then show ?thesis by (rule updateEnemyList_projectiles)
    qed
  qed
  then show ?thesis using a2 am by simp
qed

lemma collideAll_kept:
  "set (fst (collideAll ps w)) \<subseteq> set ps"
  by (induction ps arbitrary: w) (auto simp add: case_prod_beta)

subsection \<open>The frame in which the game ends\<close>

lemma collectBolt_bolts:
  "bolts (snd (collectBolt b w)) =
     bolts w + (if \<not> collected b \<and> nearPlayer w b then 1 else 0)"
  by (simp add: collectBolt_def)

lemma nearPlayer_player:
  assumes "player v = player w"
  shows "nearPlayer v b = nearPlayer w b"
  using assms by (simp add: nearPlayer_def)

lemma collectAll_bolts:
  "bolts (snd (collectAll bs w)) =
     bolts w + real (length (filter (\<lambda>b. \<not> collected b \<and> nearPlayer w b) bs))"
proof (induction bs arbitrary: w)
  case Nil
  show ?case by simp
next
  case (Cons b bs)
  let ?v = "snd (collectBolt b w)"
  have n: "nearPlayer ?v = nearPlayer w"
    by (intro ext nearPlayer_player) simp
  have "bolts (snd (collectAll (b # bs) w)) = bolts (snd (collectAll bs ?v))"
    by (simp add: case_prod_beta)
  also have "\<dots> = bolts ?v + real (length (filter (\<lambda>b. \<not> collected b \<and> nearPlayer ?v b) bs))"
    by (rule Cons.IH)
  also have "\<dots> = bolts w + real (length (filter (\<lambda>b. \<not> collected b \<and> nearPlayer w b) (b # bs)))"
    unfolding n collectBolt_bolts by simp
  finally show ?case .
qed

lemma collectBolts_bolts:
  "bolts (collectBolts w) =
     bolts w + real (length (filter (\<lambda>b. \<not> collected b \<and> nearPlayer w b) (boltPickups w)))"
  by (simp add: collectBolts_def case_prod_beta collectAll_bolts)

lemma gameOver_outermost:
  "(w\<lparr>gameOver := g\<rparr>)\<lparr>particles := ps\<rparr> = (w\<lparr>particles := ps\<rparr>)\<lparr>gameOver := g\<rparr>"
  "(w\<lparr>gameOver := g\<rparr>)\<lparr>drawn := d\<rparr> = (w\<lparr>drawn := d\<rparr>)\<lparr>gameOver := g\<rparr>"
  "(w\<lparr>gameOver := g\<rparr>)\<lparr>boltPickups := bs\<rparr> = (w\<lparr>boltPickups := bs\<rparr>)\<lparr>gameOver := g\<rparr>"
  "(w\<lparr>gameOver := g\<rparr>)\<lparr>enemies := es\<rparr> = (w\<lparr>enemies := es\<rparr>)\<lparr>gameOver := g\<rparr>"
  "(w\<lparr>gameOver := g\<rparr>)\<lparr>score := sc\<rparr> = (w\<lparr>score := sc\<rparr>)\<lparr>gameOver := g\<rparr>"
  "(w\<lparr>gameOver := g\<rparr>)\<lparr>player := pl\<rparr> = (w\<lparr>player := pl\<rparr>)\<lparr>gameOver := g\<rparr>"
  for w :: World
  by (cases w; simp)+

lemma spawnParticles_gameOver:
  "spawnParticles x y c n sp (w\<lparr>gameOver := True\<rparr>)
     = (spawnParticles x y c n sp w)\<lparr>gameOver := True\<rparr>"
  by (induction n arbitrary: w) (simp_all add: Let_def gameOver_outermost)

lemma spawnBolts_gameOver:
  "spawnBolts x y n (w\<lparr>gameOver := True\<rparr>) = (spawnBolts x y n w)\<lparr>gameOver := True\<rparr>"
  by (induction n arbitrary: w) (simp_all add: Let_def gameOver_outermost)

lemma hitEnemy_gameOver:
  "hitEnemy p i (w\<lparr>gameOver := True\<rparr>) = (hitEnemy p i w)\<lparr>gameOver := True\<rparr>"
  by (simp add: hitEnemy_def Let_def spawnParticles_gameOver spawnBolts_gameOver
      gameOver_outermost)

lemma scanEnemies_gameOver:
  "scanEnemies p n (w\<lparr>gameOver := True\<rparr>)
     = map_option (\<lambda>v. v\<lparr>gameOver := True\<rparr>) (scanEnemies p n w)"
  by (induction n) (simp_all add: hitEnemy_gameOver)

lemma hitPlayer_gameOver:
  "hitPlayer p (w\<lparr>gameOver := True\<rparr>)
     = map_option (\<lambda>v. v\<lparr>gameOver := True\<rparr>) (hitPlayer p w)"
  by (simp add: hitPlayer_def Let_def spawnParticles_gameOver gameOver_outermost)

lemma collideProjectile_gameOver_set:
  "collideProjectile p (w\<lparr>gameOver := True\<rparr>)
     = (fst (collideProjectile p w), (snd (collideProjectile p w))\<lparr>gameOver := True\<rparr>)"
proof (cases "isEnemy p")
  case True
  then show ?thesis
    by (cases "hitPlayer p w") (simp_all add: collideProjectile_def hitPlayer_gameOver)
next
  case False
  then show ?thesis
    by (cases "scanEnemies p (length (enemies w)) w")
       (simp_all add: collideProjectile_def scanEnemies_gameOver)
qed

lemma collideAll_gameOver_set:
  "collideAll ps (w\<lparr>gameOver := True\<rparr>)
     = (fst (collideAll ps w), (snd (collideAll ps w))\<lparr>gameOver := True\<rparr>)"
proof (induction ps arbitrary: w)
  case Nil
  show ?case by simp
next
  case (Cons p ps)
  show ?case
    by (simp add: case_prod_beta collideProjectile_gameOver_set Cons.IH)
qed

subsection \<open>The collision pass, projectile by projectile\<close>

lemma collideAll_append:
  "collideAll (qs @ ps) w =
     (fst (collideAll qs w) @ fst (collideAll ps (snd (collideAll qs w))),
      snd (collideAll ps (snd (collideAll qs w))))"
  by (induction qs arbitrary: w) (simp_all add: case_prod_beta)

lemma collideProjectile_invincible_gameOver:
  assumes "invincible (player w) > 0"
  shows "gameOver (snd (collideProjectile p w)) = gameOver w"
proof (cases "isEnemy p")
  case True
  then show ?thesis
    using hitPlayer_invincible [OF assms] by (simp add: collideProjectile_def)
next
  case False
  show ?thesis
  proof (cases "scanEnemies p (length (enemies w)) w")
    case None
    then show ?thesis using False by (simp add: collideProjectile_def)
  next
    case (Some w')
    then show ?thesis
      using False scanEnemies_frame [OF Some] by (simp add: collideProjectile_def)
  qed
qed

lemma collideAll_invincible_gameOver:
  assumes "invincible (player w) > 0"
  shows "gameOver (snd (collideAll ps w)) = gameOver w"
  using assms
proof (induction ps arbitrary: w)
  case Nil
  show ?case by simp
next
  case (Cons p ps)
  have a: "player (snd (collideProjectile p w)) = player w"
    using Cons.prems by (rule collideProjectile_invincible)
  have b: "gameOver (snd (collideProjectile p w)) = gameOver w"
    using Cons.prems by (rule collideProjectile_invincible_gameOver)
  have "invincible (player (snd (collideProjectile p w))) > 0"
    using a Cons.prems by simp
  then have "gameOver (snd (collideAll ps (snd (collideProjectile p w))))
      = gameOver (snd (collideProjectile p w))"
    by (rule Cons.IH)
  then show ?case using b by (simp add: case_prod_beta)
qed

lemma collideProjectile_hit:
  "player (snd (collideProjectile p w)) = player w
     \<and> gameOver (snd (collideProjectile p w)) = gameOver w
   \<or> isEnemy p \<and> invincible (player w) \<le> 0
     \<and> (pr_x p - p_x (player w)) * (pr_x p - p_x (player w))
        + (pr_y p - p_y (player w)) * (pr_y p - p_y (player w)) < 900
     \<and> health (player (snd (collideProjectile p w))) = health (player w) - pr_damage p
     \<and> invincible (player (snd (collideProjectile p w))) = 60
     \<and> gameOver (snd (collideProjectile p w))
         = (gameOver w \<or> health (player w) - pr_damage p \<le> 0)"
proof (cases "isEnemy p")
  case True
  show ?thesis
  proof (cases "invincible (player w) \<le> 0
     \<and> (pr_x p - p_x (player w)) * (pr_x p - p_x (player w))
        + (pr_y p - p_y (player w)) * (pr_y p - p_y (player w)) < 900")
    case hit: True
    then have "health (player (snd (collideProjectile p w))) = health (player w) - pr_damage p
     \<and> invincible (player (snd (collideProjectile p w))) = 60
     \<and> gameOver (snd (collideProjectile p w))
         = (gameOver w \<or> health (player w) - pr_damage p \<le> 0)"
      using True by (simp add: collideProjectile_def hitPlayer_def Let_def)
    then show ?thesis using True hit by simp
  next
    case False
    then have "hitPlayer p w = None" by (auto simp add: hitPlayer_def Let_def)
    then show ?thesis using True by (simp add: collideProjectile_def)
  qed
next
  case False
  show ?thesis
  proof (cases "scanEnemies p (length (enemies w)) w")
    case None
    then show ?thesis using False by (simp add: collideProjectile_def)
  next
    case (Some w')
    then show ?thesis
      using False scanEnemies_frame [OF Some] by (simp add: collideProjectile_def)
  qed
qed

lemma collideAll_hit:
  "player (snd (collideAll ps w)) = player w \<and> gameOver (snd (collideAll ps w)) = gameOver w
   \<or> (\<exists>q \<in> set ps. isEnemy q \<and> invincible (player w) \<le> 0
         \<and> (pr_x q - p_x (player w)) * (pr_x q - p_x (player w))
            + (pr_y q - p_y (player w)) * (pr_y q - p_y (player w)) < 900
         \<and> health (player (snd (collideAll ps w))) = health (player w) - pr_damage q
         \<and> invincible (player (snd (collideAll ps w))) = 60
         \<and> gameOver (snd (collideAll ps w))
             = (gameOver w \<or> health (player w) - pr_damage q \<le> 0))"
proof (induction ps arbitrary: w)
  case Nil
  show ?case by simp
next
  case (Cons p ps)
  let ?v = "snd (collideProjectile p w)"
  let ?r = "snd (collideAll (p # ps) w)"
  have all: "?r = snd (collideAll ps ?v)"
    by (simp add: case_prod_beta)
  consider (same) "player ?v = player w" "gameOver ?v = gameOver w"
    | (hit) "isEnemy p" "invincible (player w) \<le> 0"
        "(pr_x p - p_x (player w)) * (pr_x p - p_x (player w))
          + (pr_y p - p_y (player w)) * (pr_y p - p_y (player w)) < 900"
        "health (player ?v) = health (player w) - pr_damage p"
        "invincible (player ?v) = 60"
        "gameOver ?v = (gameOver w \<or> health (player w) - pr_damage p \<le> 0)"
    using collideProjectile_hit [of p w] by blast
  then show ?case
  proof cases
    case same
    from Cons.IH [of ?v] show ?thesis
    proof
      assume "player (snd (collideAll ps ?v)) = player ?v
          \<and> gameOver (snd (collideAll ps ?v)) = gameOver ?v"
      then have "player ?r = player w \<and> gameOver ?r = gameOver w"
        unfolding all using same by simp
      then show ?thesis by (rule disjI1)
    next
      assume "\<exists>q \<in> set ps. isEnemy q \<and> invincible (player ?v) \<le> 0
         \<and> (pr_x q - p_x (player ?v)) * (pr_x q - p_x (player ?v))
            + (pr_y q - p_y (player ?v)) * (pr_y q - p_y (player ?v)) < 900
         \<and> health (player (snd (collideAll ps ?v))) = health (player ?v) - pr_damage q
         \<and> invincible (player (snd (collideAll ps ?v))) = 60
         \<and> gameOver (snd (collideAll ps ?v))
             = (gameOver ?v \<or> health (player ?v) - pr_damage q \<le> 0)"
      then obtain q where q: "q \<in> set ps" and r: "isEnemy q \<and> invincible (player ?v) \<le> 0
         \<and> (pr_x q - p_x (player ?v)) * (pr_x q - p_x (player ?v))
            + (pr_y q - p_y (player ?v)) * (pr_y q - p_y (player ?v)) < 900
         \<and> health (player (snd (collideAll ps ?v))) = health (player ?v) - pr_damage q
         \<and> invincible (player (snd (collideAll ps ?v))) = 60
         \<and> gameOver (snd (collideAll ps ?v))
             = (gameOver ?v \<or> health (player ?v) - pr_damage q \<le> 0)"
        by (elim bexE)
      have m: "q \<in> set (p # ps)" using q by simp
      have "isEnemy q \<and> invincible (player w) \<le> 0
         \<and> (pr_x q - p_x (player w)) * (pr_x q - p_x (player w))
            + (pr_y q - p_y (player w)) * (pr_y q - p_y (player w)) < 900
         \<and> health (player ?r) = health (player w) - pr_damage q
         \<and> invincible (player ?r) = 60
         \<and> gameOver ?r = (gameOver w \<or> health (player w) - pr_damage q \<le> 0)"
        using r unfolding all same by simp
      then show ?thesis using m by (intro disjI2 bexI [of _ q])
    qed
  next
    case hit
    have pos: "invincible (player ?v) > 0" using hit(5) by simp
    have "player (snd (collideAll ps ?v)) = player ?v"
      using pos by (rule collideAll_invincible)
    moreover have "gameOver (snd (collideAll ps ?v)) = gameOver ?v"
      using pos by (rule collideAll_invincible_gameOver)
    ultimately have "isEnemy p \<and> invincible (player w) \<le> 0
         \<and> (pr_x p - p_x (player w)) * (pr_x p - p_x (player w))
            + (pr_y p - p_y (player w)) * (pr_y p - p_y (player w)) < 900
         \<and> health (player ?r) = health (player w) - pr_damage p
         \<and> invincible (player ?r) = 60
         \<and> gameOver ?r = (gameOver w \<or> health (player w) - pr_damage p \<le> 0)"
      unfolding all using hit by simp
    moreover have "p \<in> set (p # ps)" by simp
    ultimately show ?thesis by (intro disjI2 bexI [of _ p])
  qed
qed

lemma gameLoop_after_pass:
  assumes "started w" "\<not> paused w" "\<not> gameOver w"
    and "currentWeapon w < length (weapons w)"
  shows "\<exists>w1 w'. beforeCollisions inp w = Some w1 \<and> gameLoop inp w = Some w'
     \<and> score w' = score (detectCollisions w1)
     \<and> projectiles w' = projectiles (detectCollisions w1)
     \<and> boltPickups w' = boltPickups (collectBolts (detectCollisions w1))
     \<and> (enemies (detectCollisions w1) \<noteq> [] \<longrightarrow>
           enemies w' = enemies (detectCollisions w1) \<and> wave w' = wave w)"
proof -
  from gameLoop_running [OF assms, of inp]
  obtain w1 w2 where b: "beforeCollisions inp w = Some w1"
    and r: "regenAmmo (collectBolts (detectCollisions w1)) = Some w2"
    and g: "gameLoop inp w = Some (updateParticles (advanceWave w2))"
    by (elim exE conjE)
  note f1 = beforeCollisions_frame [OF b]
  note f2 = regenAmmo_frame [OF r]
  let ?w' = "updateParticles (advanceWave w2)"
  have 1: "score ?w' = score (detectCollisions w1)" using f2 by simp
  have 2: "projectiles ?w' = projectiles (detectCollisions w1)" using f2 by simp
  have 3: "boltPickups ?w' = boltPickups (collectBolts (detectCollisions w1))"
    using f2 by simp
  have 4: "enemies (detectCollisions w1) \<noteq> [] \<longrightarrow>
           enemies ?w' = enemies (detectCollisions w1) \<and> wave ?w' = wave w"
    using f1 f2 by (simp add: advanceWave_def)
  show ?thesis
    by (intro exI [of _ w1] exI [of _ ?w'] conjI b g 1 2 3 4)
qed

subsection \<open>The wave 4 frame, evaluated\<close>

lemma sqrt_22500: "sqrt 22500 = 150"
proof -
  have "sqrt (150\<^sup>2) = 150" by simp
  then show ?thesis by simp
qed

lemma tankVolley_fields:
  "started tankVolley" "\<not> paused tankVolley" "\<not> gameOver tankVolley"
  "weapons tankVolley = initialWeapons" "currentWeapon tankVolley = 0"
  "ammo tankVolley = 42" "wave tankVolley = 4"
  "health (player tankVolley) = 10" "maxHealth (player tankVolley) = 100"
  by (simp_all add: tankVolley_def initialWorld_def)

lemma tankVolley_valid: "currentWeapon tankVolley < length (weapons tankVolley)"
  by (simp add: tankVolley_fields initialWeapons_def)

lemma tankVolley_before:
  "beforeCollisions cornerInput tankVolley =
     Some (tankVolley
       \<lparr>enemies := [\<lparr>e_x = 180, e_y = 30, e_health = 210, e_maxHealth = 210, e_type = Tank,
                    e_angle = pi, shootCooldown = 65\<rparr>],
        projectiles :=
         [\<lparr>pr_x = 55, pr_y = 30, pr_vx = - 5, pr_vy = 0, pr_damage = 15, isEnemy = True,
           pr_color = ''#ff3366'', pr_size = 6\<rparr>]\<rparr>)"
  by (simp add: beforeCollisions_def cornerInput_def tankVolley_def initialWorld_def
      movePlayer_def aimPlayer_def atan2_def updateInvincibility_def updateProjectiles_def
      advanceProjectile_def onField_def updateEnemies_def updateEnemy_def
      CANVAS_WIDTH_def CANVAS_HEIGHT_def sqrt_22500 Let_def)

lemma tankVolley_collisions:
  "health (player (detectCollisions (tankVolley
       \<lparr>enemies := [\<lparr>e_x = 180, e_y = 30, e_health = 210, e_maxHealth = 210, e_type = Tank,
                    e_angle = pi, shootCooldown = 65\<rparr>],
        projectiles :=
         [\<lparr>pr_x = 55, pr_y = 30, pr_vx = - 5, pr_vy = 0, pr_damage = 15, isEnemy = True,
           pr_color = ''#ff3366'', pr_size = 6\<rparr>]\<rparr>))) = - 5"
  by (simp add: detectCollisions_def collideProjectile_def hitPlayer_def tankVolley_def
      initialWorld_def Let_def del: spawnParticles.simps)

subsection \<open>The two-drone frame, evaluated\<close>

lemma sqrt_44100: "sqrt 44100 = 210"
proof -
  have "sqrt (210\<^sup>2) = 210" by simp
  then show ?thesis by simp
qed

lemma twoDrones_fields:
  "started twoDrones" "\<not> paused twoDrones" "\<not> gameOver twoDrones"
  "weapons twoDrones = initialWeapons" "currentWeapon twoDrones = 0"
  "score twoDrones = 150" "wave twoDrones = 1" "boltPickups twoDrones = []"
  by (simp_all add: twoDrones_def initialWorld_def)

lemma twoDrones_valid: "currentWeapon twoDrones < length (weapons twoDrones)"
  by (simp add: twoDrones_fields initialWeapons_def)

lemma twoDrones_before:
  "beforeCollisions cornerInput twoDrones =
     Some (twoDrones
       \<lparr>enemies := [\<lparr>e_x = 228, e_y = 30, e_health = 40, e_maxHealth = 40, e_type = Drone,
                    e_angle = pi, shootCooldown = 56\<rparr>,
                   \<lparr>e_x = 238, e_y = 30, e_health = 10, e_maxHealth = 40, e_type = Drone,
                    e_angle = pi, shootCooldown = 22\<rparr>],
        projectiles :=
         [\<lparr>pr_x = 210, pr_y = 30, pr_vx = 15, pr_vy = 0, pr_damage = 10, isEnemy = False,
           pr_color = ''#00d4ff'', pr_size = 6\<rparr>]\<rparr>)"
  by (simp add: beforeCollisions_def cornerInput_def twoDrones_def initialWorld_def
      movePlayer_def aimPlayer_def atan2_def updateInvincibility_def updateProjectiles_def
      advanceProjectile_def onField_def updateEnemies_def updateEnemy_def
      CANVAS_WIDTH_def CANVAS_HEIGHT_def sqrt_40000 sqrt_44100 Let_def)

lemma twoDrones_pickups:
  "boltPickups (collectBolts (detectCollisions (twoDrones
       \<lparr>enemies := [\<lparr>e_x = 228, e_y = 30, e_health = 40, e_maxHealth = 40, e_type = Drone,
                    e_angle = pi, shootCooldown = 56\<rparr>,
                   \<lparr>e_x = 238, e_y = 30, e_health = 10, e_maxHealth = 40, e_type = Drone,
                    e_angle = pi, shootCooldown = 22\<rparr>],
        projectiles :=
         [\<lparr>pr_x = 210, pr_y = 30, pr_vx = 15, pr_vy = 0, pr_damage = 10, isEnemy = False,
           pr_color = ''#00d4ff'', pr_size = 6\<rparr>]\<rparr>))) =
     [\<lparr>b_x = 238, b_y = 30, collected = False, sparkle = 0.1\<rparr>,
      \<lparr>b_x = 238, b_y = 30, collected = False, sparkle = 0.1\<rparr>,
      \<lparr>b_x = 238, b_y = 30, collected = False, sparkle = 0.1\<rparr>]"
  by (simp add: collectBolts_def collectBolt_def nearPlayer_def
      detectCollisions_def collideProjectile_def hitEnemy_def
      overlapsEnemy_def enemySize_def boltCount_def scoreValue_def twoDrones_def
      initialWorld_def CANVAS_WIDTH_def CANVAS_HEIGHT_def numeral_3_eq_3 Let_def
      del: spawnParticles.simps)

section \<open>The claims\<close>

subsection \<open>Health and ammo after a frame\<close>

text \<open>
  Claim C1 as stated fails: the hit branch stores \<open>health - damage\<close> as it is. In the
  wave 4 frame the player has 10 health, within \<open>[0, maxHealth]\<close>, and the tank's
  projectile hits for 15: the frame completes with a stored health of -5.
\<close>

theorem health_clamped_counterexample:
  "0 \<le> health (player tankVolley)
   \<and> health (player tankVolley) \<le> maxHealth (player tankVolley)
   \<and> map_option (health \<circ> player) (gameLoop cornerInput tankVolley) = Some (- 5)"
proof -
  from gameLoop_summary [OF tankVolley_fields(1-3) tankVolley_valid, of cornerInput]
  obtain w1 w' where b: "beforeCollisions cornerInput tankVolley = Some w1"
    and g: "gameLoop cornerInput tankVolley = Some w'"
    and p: "player w' = player (detectCollisions w1)"
    by (elim exE conjE)
  have e: "w1 = tankVolley
       \<lparr>enemies := [\<lparr>e_x = 180, e_y = 30, e_health = 210, e_maxHealth = 210, e_type = Tank,
                    e_angle = pi, shootCooldown = 65\<rparr>],
        projectiles :=
         [\<lparr>pr_x = 55, pr_y = 30, pr_vx = - 5, pr_vy = 0, pr_damage = 15, isEnemy = True,
           pr_color = ''#ff3366'', pr_size = 6\<rparr>]\<rparr>"
    using b tankVolley_before by simp
  have "health (player (detectCollisions w1)) = - 5"
    unfolding e by (rule tankVolley_collisions)
  then have "health (player w') = - 5" using p by simp
  then show ?thesis using g by (simp add: tankVolley_fields)
qed

text \<open>
  Claim C1, amended. From a state in which the active weapon exists and has a non-negative
  \<open>ammoCost\<close>, \<open>ammo\<close> lies in \<open>[0, ammoMax]\<close> of that weapon, \<open>health \<le> maxHealth\<close> and no
  enemy projectile has negative damage, every frame completes and all of this holds again
  after it. The health is not clamped at 0. Either the frame leaves health and \<open>gameOver\<close>
  as they were, or an enemy projectile that is in flight when the collision pass starts,
  and then within 30 units of the player, has hit: the stored health is exactly the old
  health minus that projectile's damage, negative or not, and \<open>gameOver\<close> is set exactly
  when that value is at most 0.
\<close>

theorem health_ammo_after_frame:
  assumes "weaponAt (weapons w) (currentWeapon w) = Some weapon"
    and "0 \<le> ammoCost weapon"
    and "0 \<le> ammo w" and "ammo w \<le> ammoMax weapon"
    and "health (player w) \<le> maxHealth (player w)"
    and "\<forall>q \<in> set (projectiles w). isEnemy q \<longrightarrow> 0 \<le> pr_damage q"
  shows "\<exists>w'. gameLoop inp w = Some w'
     \<and> weaponAt (weapons w') (currentWeapon w') = Some weapon
     \<and> 0 \<le> ammo w' \<and> ammo w' \<le> ammoMax weapon
     \<and> health (player w') \<le> maxHealth (player w')
     \<and> (\<forall>q \<in> set (projectiles w'). isEnemy q \<longrightarrow> 0 \<le> pr_damage q)
     \<and> (health (player w') = health (player w) \<and> gameOver w' = gameOver w
          \<or> (\<exists>w1 q. beforeCollisions inp w = Some w1 \<and> q \<in> set (projectiles w1)
                \<and> isEnemy q \<and> 0 \<le> pr_damage q
                \<and> (pr_x q - p_x (player w1)) * (pr_x q - p_x (player w1))
                   + (pr_y q - p_y (player w1)) * (pr_y q - p_y (player w1)) < 900
                \<and> health (player w') = health (player w) - pr_damage q
                \<and> gameOver w' = (health (player w) - pr_damage q \<le> 0)))"
proof (cases "started w \<and> \<not> paused w \<and> \<not> gameOver w")
  case False
  then have "gameLoop inp w = Some w" by (auto simp add: gameLoop_def)
  then show ?thesis using assms by (intro exI [of _ w]) simp
next
  case True
  have valid: "currentWeapon w < length (weapons w)"
    using assms(1) by (simp add: weaponAt_def split: if_splits)
  have wpn: "weapons w ! currentWeapon w = weapon"
    using assms(1) by (simp add: weaponAt_def split: if_splits)
  from True have run: "started w" "\<not> paused w" "\<not> gameOver w" by simp_all
  from gameLoop_summary [OF run valid, of inp]
  obtain w1 w' where b: "beforeCollisions inp w = Some w1"
    and g: "gameLoop inp w = Some w'"
    and p: "player w' = player (detectCollisions w1)"
    and go: "gameOver w' = gameOver (detectCollisions w1)"
    and pr: "projectiles w' = projectiles (detectCollisions w1)"
    and am: "ammo w' = (if ammo w1 < ammoMax (weapons w ! currentWeapon w)
                  then min (ammoMax (weapons w ! currentWeapon w)) (ammo w1 + 0.1)
                  else ammo w1)"
    and ws: "weapons w' = weapons w" and cw: "currentWeapon w' = currentWeapon w"
    by (elim exE conjE)
  note f = beforeCollisions_frame [OF b]
  from beforeCollisions_bounds [OF b assms(1-4) assms(6)]
  have a1: "0 \<le> ammo w1" "ammo w1 \<le> ammoMax weapon"
    and p1: "\<forall>q \<in> set (projectiles w1). isEnemy q \<longrightarrow> 0 \<le> pr_damage q"
    by simp_all
  have c1: "weaponAt (weapons w') (currentWeapon w') = Some weapon"
    using assms(1) ws cw by simp
  have c2: "0 \<le> ammo w'" "ammo w' \<le> ammoMax weapon"
    using am a1 unfolding wpn by simp_all
  have dc: "player (detectCollisions w1) = player (snd (collideAll (projectiles w1) w1))"
    "gameOver (detectCollisions w1) = gameOver (snd (collideAll (projectiles w1) w1))"
    "projectiles (detectCollisions w1) = fst (collideAll (projectiles w1) w1)"
    by (simp_all add: detectCollisions_def case_prod_beta)
  have c7: "health (player w') = health (player w) \<and> gameOver w' = gameOver w
          \<or> (\<exists>w1 q. beforeCollisions inp w = Some w1 \<and> q \<in> set (projectiles w1)
                \<and> isEnemy q \<and> 0 \<le> pr_damage q
                \<and> (pr_x q - p_x (player w1)) * (pr_x q - p_x (player w1))
                   + (pr_y q - p_y (player w1)) * (pr_y q - p_y (player w1)) < 900
                \<and> health (player w') = health (player w) - pr_damage q
                \<and> gameOver w' = (health (player w) - pr_damage q \<le> 0))"
    using collideAll_hit [of "projectiles w1" w1]
  proof
    assume "player (snd (collideAll (projectiles w1) w1)) = player w1
        \<and> gameOver (snd (collideAll (projectiles w1) w1)) = gameOver w1"
    then have "health (player w') = health (player w) \<and> gameOver w' = gameOver w"
      using p go dc(1,2) f by simp
    then show ?thesis by (rule disjI1)
  next
    assume "\<exists>q \<in> set (projectiles w1). isEnemy q \<and> invincible (player w1) \<le> 0
         \<and> (pr_x q - p_x (player w1)) * (pr_x q - p_x (player w1))
            + (pr_y q - p_y (player w1)) * (pr_y q - p_y (player w1)) < 900
         \<and> health (player (snd (collideAll (projectiles w1) w1)))
             = health (player w1) - pr_damage q
         \<and> invincible (player (snd (collideAll (projectiles w1) w1))) = 60
         \<and> gameOver (snd (collideAll (projectiles w1) w1))
             = (gameOver w1 \<or> health (player w1) - pr_damage q \<le> 0)"
    then obtain q where q: "q \<in> set (projectiles w1)" and e: "isEnemy q"
      and n: "(pr_x q - p_x (player w1)) * (pr_x q - p_x (player w1))
            + (pr_y q - p_y (player w1)) * (pr_y q - p_y (player w1)) < 900"
      and h: "health (player (snd (collideAll (projectiles w1) w1)))
             = health (player w1) - pr_damage q"
      and o: "gameOver (snd (collideAll (projectiles w1) w1))
             = (gameOver w1 \<or> health (player w1) - pr_damage q \<le> 0)"
      by (elim bexE conjE)
    have d: "0 \<le> pr_damage q" using p1 q e by blast
    have h': "health (player w') = health (player w) - pr_damage q"
      using h p dc(1) f by simp
    have o': "gameOver w' = (health (player w) - pr_damage q \<le> 0)"
      using o go dc(2) f run(3) by simp
    show ?thesis
      by (intro disjI2 exI [of _ w1] exI [of _ q] conjI b q e d n h' o')
  qed
  have mh: "maxHealth (player w') = maxHealth (player w)"
    using p f by simp
  have le: "health (player w') \<le> health (player w)"
    using c7 by (elim disjE exE conjE) simp_all
  have c4: "health (player w') \<le> maxHealth (player w')"
    using le assms(5) mh by simp
  have c5: "\<forall>q \<in> set (projectiles w'). isEnemy q \<longrightarrow> 0 \<le> pr_damage q"
    using p1 collideAll_kept [of "projectiles w1" w1] unfolding pr dc(3) by blast
  show ?thesis
    by (intro exI [of _ w'] conjI g c1 c2 c4 c5 c7)
qed

text \<open>The wave 4 frame satisfies the hypotheses; after it the bounds on ammo and the upper
  bound on health hold, health has gone from 10 to -5 and the game is over.\<close>

theorem health_ammo_after_frame_witness:
  "\<exists>w'. gameLoop cornerInput tankVolley = Some w'
     \<and> 0 \<le> ammo w' \<and> ammo w' \<le> 100
     \<and> health (player w') \<le> maxHealth (player w')
     \<and> health (player tankVolley) = 10 \<and> health (player w') = - 5 \<and> gameOver w'"
proof -
  let ?B = "initialWeapons ! 0"
  have 1: "weaponAt (weapons tankVolley) (currentWeapon tankVolley) = Some ?B"
    by (simp add: tankVolley_fields weaponAt_def initialWeapons_def)
  have 2: "0 \<le> ammoCost ?B" by (simp add: initialWeapons_def)
  have 3: "0 \<le> ammo tankVolley" by (simp add: tankVolley_fields)
  have 4: "ammo tankVolley \<le> ammoMax ?B" by (simp add: tankVolley_fields initialWeapons_def)
  have 5: "health (player tankVolley) \<le> maxHealth (player tankVolley)"
    by (simp add: tankVolley_fields)
  have 6: "\<forall>q \<in> set (projectiles tankVolley). isEnemy q \<longrightarrow> 0 \<le> pr_damage q"
    by (simp add: tankVolley_def)
  from health_ammo_after_frame [OF 1 2 3 4 5 6, of cornerInput]
  obtain w' where g: "gameLoop cornerInput tankVolley = Some w'"
    and a: "0 \<le> ammo w'" "ammo w' \<le> ammoMax ?B"
    and h: "health (player w') \<le> maxHealth (player w')"
    and c: "health (player w') = health (player tankVolley) \<and> gameOver w' = gameOver tankVolley
          \<or> (\<exists>w1 q. beforeCollisions cornerInput tankVolley = Some w1 \<and> q \<in> set (projectiles w1)
                \<and> isEnemy q \<and> 0 \<le> pr_damage q
                \<and> (pr_x q - p_x (player w1)) * (pr_x q - p_x (player w1))
                   + (pr_y q - p_y (player w1)) * (pr_y q - p_y (player w1)) < 900
                \<and> health (player w') = health (player tankVolley) - pr_damage q
                \<and> gameOver w' = (health (player tankVolley) - pr_damage q \<le> 0))"
    by (elim exE conjE)
  from gameLoop_summary [OF tankVolley_fields(1-3) tankVolley_valid, of cornerInput]
  obtain w1 v where b: "beforeCollisions cornerInput tankVolley = Some w1"
    and gv: "gameLoop cornerInput tankVolley = Some v"
    and p: "player v = player (detectCollisions w1)"
    by (elim exE conjE)
  have e: "w1 = tankVolley
       \<lparr>enemies := [\<lparr>e_x = 180, e_y = 30, e_health = 210, e_maxHealth = 210, e_type = Tank,
                    e_angle = pi, shootCooldown = 65\<rparr>],
        projectiles :=
         [\<lparr>pr_x = 55, pr_y = 30, pr_vx = - 5, pr_vy = 0, pr_damage = 15, isEnemy = True,
           pr_color = ''#ff3366'', pr_size = 6\<rparr>]\<rparr>"
    using b tankVolley_before by simp
  have "health (player (detectCollisions w1)) = - 5"
    unfolding e by (rule tankVolley_collisions)
  moreover have "v = w'" using g gv by simp
  ultimately have m: "health (player w') = - 5" using p by simp
  have o: "gameOver w'"
    using c
  proof
    assume "health (player w') = health (player tankVolley) \<and> gameOver w' = gameOver tankVolley"
    then show ?thesis using m by (simp add: tankVolley_fields)
  next
    assume "\<exists>w1 q. beforeCollisions cornerInput tankVolley = Some w1 \<and> q \<in> set (projectiles w1)
                \<and> isEnemy q \<and> 0 \<le> pr_damage q
                \<and> (pr_x q - p_x (player w1)) * (pr_x q - p_x (player w1))
                   + (pr_y q - p_y (player w1)) * (pr_y q - p_y (player w1)) < 900
                \<and> health (player w') = health (player tankVolley) - pr_damage q
                \<and> gameOver w' = (health (player tankVolley) - pr_damage q \<le> 0)"
    then obtain q :: Projectile where
      "health (player w') = health (player tankVolley) - pr_damage q"
      "gameOver w' = (health (player tankVolley) - pr_damage q \<le> 0)"
      by (elim exE conjE)
    then show ?thesis using m by simp
  qed
  have t: "health (player tankVolley) = 10" by (simp add: tankVolley_fields)
  have a': "ammo w' \<le> 100" using a(2) by (simp add: initialWeapons_def)
  show ?thesis by (intro exI [of _ w'] conjI g a(1) a' h t m o)
qed

subsection \<open>The fire cooldown\<close>

text \<open>
  Claim C2 as stated fails: the component has one \<open>lastShotRef\<close> for all weapons. In a
  game just started the Blaster fires at time 1000000; the player switches to the Devastator
  (index 3, \<open>fireRate\<close> 800), which has never fired, so that its own last shot, if it had one,
  would be the initial 0 of the timestamp, more than 800 ms in the past, and the 20 rounds
  left cover its cost of 5. The attempt at time 1000001 is nevertheless a no-op.
\<close>

theorem cooldown_per_weapon_counterexample:
  "map_option (length \<circ> projectiles)
     (shoot 1000000 freshGame) = Some 1
   \<and> fireRate (initialWeapons ! 3) \<le> 1000001 - lastShot freshGame
   \<and> map_option weapons
       (Option.bind (shoot 1000000 freshGame) (selectWeapon 3))
       = Some initialWeapons
   \<and> map_option currentWeapon
       (Option.bind (shoot 1000000 freshGame) (selectWeapon 3))
       = Some 3
   \<and> map_option ammo
       (Option.bind (shoot 1000000 freshGame) (selectWeapon 3))
       = Some 20
   \<and> ammoCost (initialWeapons ! 3) \<le> 20
   \<and> Option.bind
       (Option.bind (shoot 1000000 freshGame) (selectWeapon 3))
       (shoot 1000001)
     = Option.bind (shoot 1000000 freshGame) (selectWeapon 3)"
proof -
  let ?w = "freshGame"
  have wa: "weaponAt (weapons ?w) (currentWeapon ?w) = Some (initialWeapons ! 0)"
    by (simp add: freshGame_fields initialWeapons_def weaponAt_def)
  obtain w1 where w1: "shoot 1000000 ?w = Some w1" "length (projectiles w1) = 1"
      "lastShot w1 = 1000000" "weapons w1 = initialWeapons" "ammo w1 = 99"
    by (simp add: shoot_result [OF wa]) (simp add: freshGame_fields initialWeapons_def)
  let ?w2 = "w1\<lparr>currentWeapon := 3, ammo := 20\<rparr>"
  have sel: "selectWeapon 3 w1 = Some ?w2"
    by (simp add: selectWeapon_def weaponAt_def w1 initialWeapons_def)
  have wa2: "weaponAt (weapons ?w2) (currentWeapon ?w2) = Some (initialWeapons ! 3)"
    by (simp add: w1 weaponAt_def initialWeapons_def)
  have "1000001 - lastShot ?w2 < fireRate (initialWeapons ! 3)"
    by (simp add: w1 initialWeapons_def)
  then have blocked: "shoot 1000001 ?w2 = Some ?w2"
    by (rule shoot_cooling [OF wa2])
  have r: "fireRate (initialWeapons ! 3) \<le> 1000001 - lastShot ?w"
    by (simp add: freshGame_fields initialWeapons_def)
  have a: "ammoCost (initialWeapons ! 3) \<le> 20"
    by (simp add: initialWeapons_def)
  show ?thesis
    using w1(1,2,4) sel blocked r a by simp
qed

text \<open>
  Claim C2, amended. The cooldown is one timestamp shared by all weapons. After any weapon
  has fired at time \<open>t\<close> and the player has switched to the weapon at index \<open>b\<close>, an attempt
  at time \<open>t'\<close> emits a projectile exactly when \<open>t' - t\<close>, the time since that shot of the
  other weapon, is at least the \<open>fireRate\<close> of \<open>b\<close> and the ammo covers its \<open>ammoCost\<close>.
\<close>

theorem shoot_cooldown_shared:
  assumes "weaponAt (weapons w) (currentWeapon w) = Some A"
    and "fireRate A \<le> t - lastShot w" and "ammoCost A \<le> ammo w"
    and "weaponAt (weapons w) b = Some B"
  shows "\<exists>w1 w2. shoot t w = Some w1 \<and> selectWeapon b w1 = Some w2
          \<and> currentWeapon w2 = b \<and> lastShot w2 = t
          \<and> ammo w2 = min (ammo w - ammoCost A) (ammoMax B)
          \<and> (\<forall>t'. \<exists>w3. shoot t' w2 = Some w3
                \<and> length (projectiles w3) = length (projectiles w2) +
                    (if fireRate B \<le> t' - t \<and> ammoCost B \<le> ammo w2 then 1 else 0))"
proof -
  obtain w1 where w1: "shoot t w = Some w1" "lastShot w1 = t" "weapons w1 = weapons w"
      "ammo w1 = ammo w - ammoCost A"
    using assms(2,3) by (simp add: shoot_result [OF assms(1)])
  let ?w2 = "w1\<lparr>currentWeapon := b, ammo := min (ammo w1) (ammoMax B)\<rparr>"
  have sel: "selectWeapon b w1 = Some ?w2"
    using assms(4) by (simp add: selectWeapon_def w1)
  have wa2: "weaponAt (weapons ?w2) (currentWeapon ?w2) = Some B"
    using assms(4) by (simp add: w1)
  have cw: "currentWeapon ?w2 = b" by simp
  have ls: "lastShot ?w2 = t" by (simp add: w1)
  have am: "ammo ?w2 = min (ammo w - ammoCost A) (ammoMax B)" by (simp add: w1)
  have "\<forall>t'. \<exists>w3. shoot t' ?w2 = Some w3
                \<and> length (projectiles w3) = length (projectiles ?w2) +
                    (if fireRate B \<le> t' - t \<and> ammoCost B \<le> ammo ?w2 then 1 else 0)"
    using shoot_length [OF wa2] unfolding ls by (intro allI)
  then show ?thesis
    by (intro exI [of _ w1] exI [of _ ?w2] conjI w1(1) sel cw ls am)
qed

text \<open>Blaster at 1000000, then Devastator: nothing at 1000001, a projectile at 1000800.\<close>

theorem shoot_cooldown_shared_witness:
  "\<exists>w1 w2. shoot 1000000 freshGame = Some w1
      \<and> selectWeapon 3 w1 = Some w2
      \<and> (\<exists>w3. shoot 1000001 w2 = Some w3 \<and> length (projectiles w3) = length (projectiles w2))
      \<and> (\<exists>w3. shoot 1000800 w2 = Some w3
            \<and> length (projectiles w3) = length (projectiles w2) + 1)"
proof -
  let ?w = "freshGame"
  have wa: "weaponAt (weapons ?w) (currentWeapon ?w) = Some (initialWeapons ! 0)"
    by (simp add: freshGame_fields initialWeapons_def weaponAt_def)
  have wb: "weaponAt (weapons ?w) 3 = Some (initialWeapons ! 3)"
    by (simp add: freshGame_fields initialWeapons_def weaponAt_def)
  have c1: "fireRate (initialWeapons ! 0) \<le> 1000000 - lastShot ?w"
    by (simp add: freshGame_fields initialWeapons_def)
  have c2: "ammoCost (initialWeapons ! 0) \<le> ammo ?w"
    by (simp add: freshGame_fields initialWeapons_def)
  from shoot_cooldown_shared [OF wa c1 c2 wb]
  obtain w1 w2 where f: "shoot 1000000 ?w = Some w1" "selectWeapon 3 w1 = Some w2"
    "ammo w2 = min (ammo ?w - ammoCost (initialWeapons ! 0)) (ammoMax (initialWeapons ! 3))"
    and g: "\<forall>t'. \<exists>w3. shoot t' w2 = Some w3
                \<and> length (projectiles w3) = length (projectiles w2) +
                    (if fireRate (initialWeapons ! 3) \<le> t' - 1000000
                        \<and> ammoCost (initialWeapons ! 3) \<le> ammo w2 then 1 else 0)"
    by (elim exE conjE)
  have am: "ammo w2 = 20"
    using f(3) by (simp add: freshGame_fields initialWeapons_def)
  have g1: "\<exists>w3. shoot 1000001 w2 = Some w3 \<and> length (projectiles w3) = length (projectiles w2)"
    using spec [OF g, of 1000001] by (simp add: initialWeapons_def)
  have g2: "\<exists>w3. shoot 1000800 w2 = Some w3 \<and> length (projectiles w3) = length (projectiles w2) + 1"
    using spec [OF g, of 1000800] am by (simp add: initialWeapons_def)
  show ?thesis
    by (intro exI [of _ w1] exI [of _ w2] conjI f(1) f(2) g1 g2)
qed

subsection \<open>A fire attempt\<close>

text \<open>
  Claim C3. When the time since \<open>lastShot\<close> is at least the active weapon's \<open>fireRate\<close> and
  \<open>ammo\<close> is at least its \<open>ammoCost\<close>, \<open>shoot\<close> deducts \<open>ammoCost\<close> and appends exactly one
  projectile: player-owned, of damage \<open>damage * level\<close>, with velocity of magnitude 15 along
  the facing angle plus the offset \<open>(r - 0.5) * spread\<close>, where \<open>r\<close> is the draw of
  \<open>Math.random\<close>; for \<open>r\<close> in \<open>[0, 1)\<close> and a non-negative \<open>spread\<close> the offset is within
  \<open>spread / 2\<close> of zero. A second attempt less than \<open>fireRate\<close> after that shot changes
  nothing. When either condition fails \<open>shoot\<close> returns the state unchanged: no projectile,
  same ammo.
\<close>

theorem shoot_correct:
  assumes "weaponAt (weapons w) (currentWeapon w) = Some weapon"
  shows "(t - lastShot w \<ge> fireRate weapon \<and> ammo w \<ge> ammoCost weapon \<longrightarrow>
          (\<exists>w' p. shoot t w = Some w'
             \<and> ammo w' = ammo w - ammoCost weapon
             \<and> projectiles w' = projectiles w @ [p]
             \<and> \<not> isEnemy p
             \<and> pr_damage p = damage weapon * real (level weapon)
             \<and> pr_vx p = cos (angle (player w) + (rand w (drawn w) - 0.5) * spread weapon) * 15
             \<and> pr_vy p = sin (angle (player w) + (rand w (drawn w) - 0.5) * spread weapon) * 15
             \<and> sqrt ((pr_vx p)\<^sup>2 + (pr_vy p)\<^sup>2) = 15
             \<and> (0 \<le> rand w (drawn w) \<and> rand w (drawn w) < 1 \<and> 0 \<le> spread weapon \<longrightarrow>
                  - (spread weapon / 2) \<le> (rand w (drawn w) - 0.5) * spread weapon \<and>
                  (rand w (drawn w) - 0.5) * spread weapon \<le> spread weapon / 2)
             \<and> (\<forall>t2. t2 - t < fireRate weapon \<longrightarrow> shoot t2 w' = Some w')))
       \<and> (\<not> (t - lastShot w \<ge> fireRate weapon \<and> ammo w \<ge> ammoCost weapon) \<longrightarrow>
            shoot t w = Some w)"
proof (intro conjI impI)
  assume no: "\<not> (t - lastShot w \<ge> fireRate weapon \<and> ammo w \<ge> ammoCost weapon)"
  show "shoot t w = Some w"
    by (subst shoot_result [OF assms]) (simp only: no if_False)
next
  assume ok: "t - lastShot w \<ge> fireRate weapon \<and> ammo w \<ge> ammoCost weapon"
  let ?a = "angle (player w) + (rand w (drawn w) - 0.5) * spread weapon"
  let ?p = "\<lparr>pr_x = p_x (player w) + cos ?a * 30, pr_y = p_y (player w) + sin ?a * 30,
             pr_vx = cos ?a * 15, pr_vy = sin ?a * 15,
             pr_damage = damage weapon * real (level weapon), isEnemy = False,
             pr_color = color weapon, pr_size = projectileSize weapon\<rparr>"
  let ?w' = "spawnParticles (p_x (player w) + cos ?a * 30) (p_y (player w) + sin ?a * 30)
               (color weapon) 5 2
               (w\<lparr>lastShot := t, ammo := ammo w - ammoCost weapon, drawn := drawn w + 1,
                  projectiles := projectiles w @ [?p]\<rparr>)"
  have 1: "shoot t w = Some ?w'"
    by (subst shoot_result [OF assms]) (simp only: ok simp_thms if_True)
  have 2: "ammo ?w' = ammo w - ammoCost weapon" by simp
  have 3: "projectiles ?w' = projectiles w @ [?p]" by simp
  have 4: "\<not> isEnemy ?p" by simp
  have 5: "pr_damage ?p = damage weapon * real (level weapon)" by simp
  have 6: "pr_vx ?p = cos ?a * 15" by simp
  have 7: "pr_vy ?p = sin ?a * 15" by simp
  have 8: "sqrt ((pr_vx ?p)\<^sup>2 + (pr_vy ?p)\<^sup>2) = 15"
    using speed15 [of ?a] by simp
  have 9: "0 \<le> rand w (drawn w) \<and> rand w (drawn w) < 1 \<and> 0 \<le> spread weapon \<longrightarrow>
                  - (spread weapon / 2) \<le> (rand w (drawn w) - 0.5) * spread weapon \<and>
                  (rand w (drawn w) - 0.5) * spread weapon \<le> spread weapon / 2"
    using offset_range [of "rand w (drawn w)" "spread weapon"] by blast
  have wa: "weaponAt (weapons ?w') (currentWeapon ?w') = Some weapon"
    using assms by simp
  have 10: "\<forall>t2. t2 - t < fireRate weapon \<longrightarrow> shoot t2 ?w' = Some ?w'"
  proof (intro allI impI)
    fix t2 :: real
    assume "t2 - t < fireRate weapon"
    then have "t2 - lastShot ?w' < fireRate weapon" by simp
    then show "shoot t2 ?w' = Some ?w'" by (rule shoot_cooling [OF wa])
  qed
  show "\<exists>w' p. shoot t w = Some w'
             \<and> ammo w' = ammo w - ammoCost weapon
             \<and> projectiles w' = projectiles w @ [p]
             \<and> \<not> isEnemy p
             \<and> pr_damage p = damage weapon * real (level weapon)
             \<and> pr_vx p = cos ?a * 15
             \<and> pr_vy p = sin ?a * 15
             \<and> sqrt ((pr_vx p)\<^sup>2 + (pr_vy p)\<^sup>2) = 15
             \<and> (0 \<le> rand w (drawn w) \<and> rand w (drawn w) < 1 \<and> 0 \<le> spread weapon \<longrightarrow>
                  - (spread weapon / 2) \<le> (rand w (drawn w) - 0.5) * spread weapon \<and>
                  (rand w (drawn w) - 0.5) * spread weapon \<le> spread weapon / 2)
             \<and> (\<forall>t2. t2 - t < fireRate weapon \<longrightarrow> shoot t2 w' = Some w')"
    by (intro exI [of _ ?w'] exI [of _ ?p] conjI 1 2 3 4 5 6 7 8 9 10)
qed

text \<open>The scenario of the specification: the Blaster fired once at ammo 100 leaves ammo 99
  and one player-owned projectile of damage 10; a second attempt 199 ms later and an attempt
  without ammo change nothing.\<close>

theorem shoot_correct_witness:
  "map_option ammo (shoot 1000 freshGame) = Some 99
   \<and> map_option (\<lambda>w'. map pr_damage (projectiles w'))
        (shoot 1000 freshGame) = Some [10]
   \<and> map_option (\<lambda>w'. map isEnemy (projectiles w'))
        (shoot 1000 freshGame) = Some [False]
   \<and> Option.bind (shoot 1000 freshGame) (shoot 1199) =
        shoot 1000 freshGame
   \<and> shoot 1000 (freshGame\<lparr>ammo := 0\<rparr>) = Some (freshGame\<lparr>ammo := 0\<rparr>)"
proof -
  let ?w = "freshGame"
  let ?v = "freshGame\<lparr>ammo := 0\<rparr>"
  let ?B = "initialWeapons ! 0"
  have wa: "weaponAt (weapons ?w) (currentWeapon ?w) = Some ?B"
    by (simp add: freshGame_fields initialWeapons_def weaponAt_def)
  have va: "weaponAt (weapons ?v) (currentWeapon ?v) = Some ?B"
    by (simp add: freshGame_fields initialWeapons_def weaponAt_def)
  have c: "fireRate ?B \<le> 1000 - lastShot ?w \<and> ammoCost ?B \<le> ammo ?w"
    by (simp add: freshGame_fields initialWeapons_def)
  have d: "\<not> (fireRate ?B \<le> 1000 - lastShot ?v \<and> ammoCost ?B \<le> ammo ?v)"
    by (simp add: freshGame_fields initialWeapons_def)
  have last: "shoot 1000 ?v = Some ?v"
    using shoot_correct [OF va, of 1000, THEN conjunct2, rule_format, OF d] .
  have "\<exists>w'. shoot 1000 ?w = Some w' \<and> ammo w' = 99 \<and> map pr_damage (projectiles w') = [10]
      \<and> map isEnemy (projectiles w') = [False] \<and> shoot 1199 w' = Some w'"
    using shoot_correct [OF wa, of 1000, THEN conjunct1, rule_format, OF c]
  proof (elim exE conjE)
    fix w' p
    assume a: "shoot 1000 ?w = Some w'" "ammo w' = ammo ?w - ammoCost ?B"
      "projectiles w' = projectiles ?w @ [p]" "\<not> isEnemy p"
      "pr_damage p = damage ?B * real (level ?B)"
      "\<forall>t2. t2 - 1000 < fireRate ?B \<longrightarrow> shoot t2 w' = Some w'"
    have "(1199::real) - 1000 < fireRate ?B" by (simp add: initialWeapons_def)
    then have b1: "shoot 1199 w' = Some w'" using a(6) by (rule_tac mp [OF spec [OF a(6)]])
    have b2: "ammo w' = 99" using a(2) by (simp add: freshGame_fields initialWeapons_def)
    have b3: "map pr_damage (projectiles w') = [10]"
      using a(3,5) by (simp add: freshGame_fields initialWeapons_def)
    have b4: "map isEnemy (projectiles w') = [False]"
      using a(3,4) by (simp add: freshGame_fields)
    show ?thesis by (intro exI [of _ w'] conjI a(1) b1 b2 b3 b4)
  qed
  then obtain w' where "shoot 1000 ?w = Some w'" "ammo w' = 99"
    "map pr_damage (projectiles w') = [10]" "map isEnemy (projectiles w') = [False]"
    "shoot 1199 w' = Some w'" by (elim exE conjE)
  then show ?thesis using last by simp
qed

subsection \<open>Weapon upgrades\<close>

text \<open>
  Claim C4. For a weapon index inside the roster, \<open>upgradeWeapon\<close> changes the state exactly
  when the balance \<open>bolts\<close> is at least the weapon's \<open>upgradeCost\<close> and its level is below 5.
  It then deducts \<open>upgradeCost\<close>, adds 1 to the level and replaces \<open>upgradeCost\<close>, \<open>damage\<close> and
  \<open>ammoMax\<close> by the floors of 1.8, 1.3 and 1.2 times their values; nothing else changes.
  Otherwise (balance too small, or level 5 whatever the balance) the state is returned as
  it was.
\<close>

theorem upgradeWeapon_correct:
  assumes "index < length (weapons w)"
  shows "(bolts w \<ge> upgradeCost (weapons w ! index) \<and> level (weapons w ! index) < 5 \<longrightarrow>
           upgradeWeapon index w =
             Some (w\<lparr>bolts := bolts w - upgradeCost (weapons w ! index),
                     weapons := (weapons w)
                       [index := (weapons w ! index)
                          \<lparr>level := level (weapons w ! index) + 1,
                           upgradeCost := real_of_int \<lfloor>upgradeCost (weapons w ! index) * 1.8\<rfloor>,
                           damage := real_of_int \<lfloor>damage (weapons w ! index) * 1.3\<rfloor>,
                           ammoMax := real_of_int \<lfloor>ammoMax (weapons w ! index) * 1.2\<rfloor>\<rparr>]\<rparr>)
           \<and> upgradeWeapon index w \<noteq> Some w)
       \<and> (\<not> (bolts w \<ge> upgradeCost (weapons w ! index) \<and> level (weapons w ! index) < 5) \<longrightarrow>
           upgradeWeapon index w = Some w)"
proof -
  let ?wp = "weapons w ! index"
  let ?wp' = "?wp\<lparr>level := level ?wp + 1,
                   upgradeCost := real_of_int \<lfloor>upgradeCost ?wp * 1.8\<rfloor>,
                   damage := real_of_int \<lfloor>damage ?wp * 1.3\<rfloor>,
                   ammoMax := real_of_int \<lfloor>ammoMax ?wp * 1.2\<rfloor>\<rparr>"
  let ?w' = "w\<lparr>bolts := bolts w - upgradeCost ?wp, weapons := (weapons w)[index := ?wp']\<rparr>"
  have look: "weaponAt (weapons w) index = Some ?wp"
    using assms by (simp add: weaponAt_def)
  have "level (weapons ?w' ! index) = level ?wp + 1"
    using assms by simp
  then have "weapons ?w' \<noteq> weapons w"
    by (metis n_not_Suc_n Suc_eq_plus1)
  then have diff: "?w' \<noteq> w"
    by metis
  show ?thesis
    using look diff by (simp add: upgradeWeapon_def)
qed

text \<open>The Blaster (cost 50) at a balance of exactly 50, at 49, and at level 5.\<close>

theorem upgradeWeapon_correct_witness:
  "upgradeWeapon 0 ((initialWorld (\<lambda>_. 0))\<lparr>bolts := 50\<rparr>) =
     Some ((initialWorld (\<lambda>_. 0))\<lparr>bolts := 0,
        weapons := (initialWeapons)[0 := (initialWeapons ! 0)\<lparr>level := 2, upgradeCost := 90,
           damage := 13, ammoMax := 120\<rparr>]\<rparr>)
   \<and> upgradeWeapon 0 ((initialWorld (\<lambda>_. 0))\<lparr>bolts := 49\<rparr>) =
     Some ((initialWorld (\<lambda>_. 0))\<lparr>bolts := 49\<rparr>)
   \<and> upgradeWeapon 0 ((initialWorld (\<lambda>_. 0))
        \<lparr>bolts := 100000, weapons := (initialWeapons)[0 := (initialWeapons ! 0)\<lparr>level := 5\<rparr>]\<rparr>) =
     Some ((initialWorld (\<lambda>_. 0))
        \<lparr>bolts := 100000, weapons := (initialWeapons)[0 := (initialWeapons ! 0)\<lparr>level := 5\<rparr>]\<rparr>)"
  using upgradeWeapon_correct [of 0 "(initialWorld (\<lambda>_. 0))\<lparr>bolts := 50\<rparr>"]
        upgradeWeapon_correct [of 0 "(initialWorld (\<lambda>_. 0))\<lparr>bolts := 49\<rparr>"]
        upgradeWeapon_correct [of 0 "(initialWorld (\<lambda>_. 0))
          \<lparr>bolts := 100000, weapons := (initialWeapons)[0 := (initialWeapons ! 0)\<lparr>level := 5\<rparr>]\<rparr>"]
  by (simp add: initialWorld_def initialWeapons_def)

subsection \<open>Spawning a wave\<close>

text \<open>
  Claim C5. \<open>spawnWave n\<close> appends \<open>3 + 2n\<close> enemies that are drones or tanks, a tank only
  when \<open>n > 3\<close>, each with \<open>health = maxHealth = (30 + 10n)\<close> times 3 for a tank and times 1
  for a drone; exactly when \<open>n\<close> is a multiple of 5 it then appends one boss at
  \<open>(CANVAS_WIDTH / 2, -100)\<close> with health \<open>200 + 50n\<close> and cooldown 0. So the number of
  enemies grows by \<open>3 + 2n\<close>, plus one with a boss. In each iteration the variant is a tank
  exactly when \<open>n > 3\<close> and that iteration's third draw of \<open>Math.random\<close> is below 0.2, which
  is the event of probability 0.2 for a uniform draw.
\<close>

theorem spawnWave_correct:
  "\<exists>new. enemies (spawnWave n w) =
           enemies w @ new @
             (if n mod 5 = 0
              then [\<lparr>e_x = CANVAS_WIDTH / 2, e_y = - 100, e_health = 200 + 50 * real n,
                     e_maxHealth = 200 + 50 * real n, e_type = Boss, e_angle = 0,
                     shootCooldown = 0\<rparr>]
              else [])
        \<and> length new = 3 + 2 * n
        \<and> (\<forall>e \<in> set new.
              (e_type e = Drone \<or> e_type e = Tank \<and> n > 3)
              \<and> e_health e = e_maxHealth e
              \<and> e_health e = (30 + 10 * real n) * (if e_type e = Tank then 3 else 1))
        \<and> length (enemies (spawnWave n w)) =
            length (enemies w) + 3 + 2 * n + (if n mod 5 = 0 then 1 else 0)
        \<and> e_type (last (enemies (spawnEnemy n w))) =
            (if n > 3 \<and> rand w (drawn w + 2) < 0.2 then Tank else Drone)"
proof -
  let ?P = "\<lambda>e. (e_type e = Drone \<or> e_type e = Tank \<and> n > 3)
              \<and> e_health e = e_maxHealth e
              \<and> e_health e = (30 + 10 * real n) * (if e_type e = Tank then 3 else 1)"
  have step: "\<exists>e. enemies (spawnEnemy n v) = enemies v @ [e] \<and> ?P e" for v
    by (simp add: spawnEnemy_def Let_def)
  obtain new where new: "enemies (spawnEnemies n (3 + 2 * n) w) = enemies w @ new"
      "length new = 3 + 2 * n" "\<forall>e \<in> set new. ?P e"
    using spawnEnemies_enemies [of n ?P "3 + 2 * n" w, OF step] by blast
  have ty: "e_type (last (enemies (spawnEnemy n w))) =
            (if n > 3 \<and> rand w (drawn w + 2) < 0.2 then Tank else Drone)"
    by (simp add: spawnEnemy_def Let_def)
  have en: "enemies (spawnWave n w) =
           enemies w @ new @
             (if n mod 5 = 0
              then [\<lparr>e_x = CANVAS_WIDTH / 2, e_y = - 100, e_health = 200 + 50 * real n,
                     e_maxHealth = 200 + 50 * real n, e_type = Boss, e_angle = 0,
                     shootCooldown = 0\<rparr>]
              else [])"
    using new(1) by (simp add: spawnWave_def Let_def mult.commute)
  have len: "length (enemies (spawnWave n w)) =
            length (enemies w) + 3 + 2 * n + (if n mod 5 = 0 then 1 else 0)"
    unfolding en using new(2) by simp
  show ?thesis
    by (intro exI [of _ new] conjI en new(2) new(3) len ty)
qed

text \<open>Wave 1 from the initial state has five drones of health 40; wave 5 has fourteen
  enemies, the last one the boss of health 450.\<close>

theorem spawnWave_correct_witness:
  "length (enemies (spawnWave 1 (initialWorld (\<lambda>_. 0)))) = 5
   \<and> e_type (enemies (spawnWave 1 (initialWorld (\<lambda>_. 0))) ! 0) = Drone
   \<and> e_health (enemies (spawnWave 1 (initialWorld (\<lambda>_. 0))) ! 0) = 40
   \<and> e_type (enemies (spawnWave 1 (initialWorld (\<lambda>_. 0))) ! 4) = Drone
   \<and> e_health (enemies (spawnWave 1 (initialWorld (\<lambda>_. 0))) ! 4) = 40
   \<and> length (enemies (spawnWave 5 (initialWorld (\<lambda>_. 0)))) = 14
   \<and> e_type (last (enemies (spawnWave 5 (initialWorld (\<lambda>_. 0))))) = Boss
   \<and> e_health (last (enemies (spawnWave 5 (initialWorld (\<lambda>_. 0))))) = 450"
proof -
  let ?w = "initialWorld (\<lambda>_. 0)"
  have e0: "enemies ?w = []" by (simp add: initialWorld_def)
  have one: "length (enemies (spawnWave 1 ?w)) = 5
      \<and> (\<forall>e \<in> set (enemies (spawnWave 1 ?w)). e_type e = Drone \<and> e_health e = 40)"
    using spawnWave_correct [of 1 ?w] unfolding e0
    by (elim exE conjE) (simp, fastforce)
  have five: "length (enemies (spawnWave 5 ?w)) = 14
      \<and> e_type (last (enemies (spawnWave 5 ?w))) = Boss
      \<and> e_health (last (enemies (spawnWave 5 ?w))) = 450"
    using spawnWave_correct [of 5 ?w] unfolding e0
    by (elim exE conjE) simp
  have m0: "enemies (spawnWave 1 ?w) ! 0 \<in> set (enemies (spawnWave 1 ?w))"
    using one by (intro nth_mem) simp
  have m4: "enemies (spawnWave 1 ?w) ! 4 \<in> set (enemies (spawnWave 1 ?w))"
    using one by (intro nth_mem) simp
  have a0: "e_type (enemies (spawnWave 1 ?w) ! 0) = Drone \<and> e_health (enemies (spawnWave 1 ?w) ! 0) = 40"
    using one m0 by (elim conjE) (rule bspec)
  have a4: "e_type (enemies (spawnWave 1 ?w) ! 4) = Drone \<and> e_health (enemies (spawnWave 1 ?w) ! 4) = 40"
    using one m4 by (elim conjE) (rule bspec)
  show ?thesis using one a0 a4 five by simp
qed

subsection \<open>Player projectiles against enemies\<close>

text \<open>
  Claim C6. Take the collision pass of a state whose projectiles are \<open>qs\<close>, then a
  player-owned \<open>p\<close>, then \<open>ps\<close>, and let \<open>v1\<close> be the state when the pass reaches \<open>p\<close>.
  When \<open>p\<close> overlaps no enemy of \<open>v1\<close> it changes nothing and is among the projectiles after
  the pass. Otherwise it hits exactly the overlapping enemy of highest index (the scan runs
  from the last index down and stops at the first overlap): that enemy loses the damage of
  \<open>p\<close>, every other enemy is as it was, and \<open>p\<close> is not among the projectiles the pass
  keeps; when the enemy's health is then at most 0 it is removed at once, the score grows
  by the variant's value (boss 500, tank 100, drone 50) and as many pickups as the
  variant's count (boss 20, tank 8, drone 3) are appended, and when it is still positive
  score and pickups are unchanged. The pass goes on with \<open>ps\<close> from that state, and its
  result is the state after \<open>detectCollisions\<close>. In a running frame this is the frame's
  collision step: score and projectiles after the frame are those after the pass, the
  pickups are those after the pass and the pickup step, and the enemies are those after the
  pass unless none is left.
\<close>

theorem player_projectile_hits_once:
  assumes "projectiles w = qs @ p # ps" and "\<not> isEnemy p"
    and "collideAll qs w = (k1, v1)"
  shows "((\<forall>k<length (enemies v1). \<not> overlapsEnemy p (enemies v1 ! k)) \<longrightarrow>
            collideProjectile p v1 = (True, v1)
            \<and> detectCollisions w =
                (snd (collideAll ps v1))\<lparr>projectiles := k1 @ p # fst (collideAll ps v1)\<rparr>)
       \<and> (i < length (enemies v1) \<and> overlapsEnemy p (enemies v1 ! i)
            \<and> (\<forall>j. i < j \<and> j < length (enemies v1) \<longrightarrow> \<not> overlapsEnemy p (enemies v1 ! j)) \<longrightarrow>
          (\<exists>v2. collideProjectile p v1 = (False, v2)
             \<and> fst (collideAll (p # ps) v1) = fst (collideAll ps v2)
             \<and> detectCollisions w =
                 (snd (collideAll ps v2))\<lparr>projectiles := k1 @ fst (collideAll ps v2)\<rparr>
             \<and> (if e_health (enemies v1 ! i) - pr_damage p \<le> 0
                 then enemies v2 = take i (enemies v1) @ drop (Suc i) (enemies v1)
                    \<and> score v2 = score v1 + scoreValue (e_type (enemies v1 ! i))
                    \<and> (\<exists>new. boltPickups v2 = boltPickups v1 @ new
                          \<and> length new = boltCount (e_type (enemies v1 ! i)))
                 else enemies v2 =
                        (enemies v1)[i := (enemies v1 ! i)
                           \<lparr>e_health := e_health (enemies v1 ! i) - pr_damage p\<rparr>]
                    \<and> score v2 = score v1
                    \<and> boltPickups v2 = boltPickups v1)))
       \<and> (started u \<and> \<not> paused u \<and> \<not> gameOver u \<and> currentWeapon u < length (weapons u) \<longrightarrow>
          (\<exists>u1 u'. beforeCollisions inp u = Some u1 \<and> gameLoop inp u = Some u'
             \<and> score u' = score (detectCollisions u1)
             \<and> projectiles u' = projectiles (detectCollisions u1)
             \<and> boltPickups u' = boltPickups (collectBolts (detectCollisions u1))
             \<and> (enemies (detectCollisions u1) \<noteq> [] \<longrightarrow>
                   enemies u' = enemies (detectCollisions u1) \<and> wave u' = wave u)))
       \<and> scoreValue Boss = 500 \<and> scoreValue Tank = 100 \<and> scoreValue Drone = 50
       \<and> boltCount Boss = 20 \<and> boltCount Tank = 8 \<and> boltCount Drone = 3"
proof -
  have k1: "fst (collideAll qs w) = k1" and v1: "snd (collideAll qs w) = v1"
    using assms(3) by simp_all
  have pass: "detectCollisions w =
      (snd (collideAll (p # ps) v1))\<lparr>projectiles := k1 @ fst (collideAll (p # ps) v1)\<rparr>"
    unfolding detectCollisions_def assms(1) collideAll_append k1 v1 by simp
  show ?thesis
  proof (intro conjI impI)
    assume "\<forall>k<length (enemies v1). \<not> overlapsEnemy p (enemies v1 ! k)"
    then have "scanEnemies p (length (enemies v1)) v1 = None"
      by (rule scanEnemies_none)
    then show c: "collideProjectile p v1 = (True, v1)"
      using assms(2) by (simp add: collideProjectile_def)
    show "detectCollisions w =
                (snd (collideAll ps v1))\<lparr>projectiles := k1 @ p # fst (collideAll ps v1)\<rparr>"
      unfolding pass using c by (simp add: case_prod_beta)
  next
    assume h: "i < length (enemies v1) \<and> overlapsEnemy p (enemies v1 ! i)
            \<and> (\<forall>j. i < j \<and> j < length (enemies v1) \<longrightarrow> \<not> overlapsEnemy p (enemies v1 ! j))"
    then have "scanEnemies p (length (enemies v1)) v1 = Some (hitEnemy p i v1)"
      by (intro scanEnemies_first) simp_all
    then have c: "collideProjectile p v1 = (False, hitEnemy p i v1)"
      using assms(2) by (simp add: collideProjectile_def)
    have d: "fst (collideAll (p # ps) v1) = fst (collideAll ps (hitEnemy p i v1))"
      using c by (rule collideAll_drops)
    have d': "detectCollisions w =
        (snd (collideAll ps (hitEnemy p i v1)))
          \<lparr>projectiles := k1 @ fst (collideAll ps (hitEnemy p i v1))\<rparr>"
      unfolding pass using c by (simp add: case_prod_beta)
    have e: "if e_health (enemies v1 ! i) - pr_damage p \<le> 0
         then enemies (hitEnemy p i v1) = take i (enemies v1) @ drop (Suc i) (enemies v1)
            \<and> score (hitEnemy p i v1) = score v1 + scoreValue (e_type (enemies v1 ! i))
            \<and> (\<exists>new. boltPickups (hitEnemy p i v1) = boltPickups v1 @ new
                  \<and> length new = boltCount (e_type (enemies v1 ! i)))
         else enemies (hitEnemy p i v1) =
                (enemies v1)[i := (enemies v1 ! i)
                   \<lparr>e_health := e_health (enemies v1 ! i) - pr_damage p\<rparr>]
            \<and> score (hitEnemy p i v1) = score v1
            \<and> boltPickups (hitEnemy p i v1) = boltPickups v1"
      using h by (intro hitEnemy_effect) simp
    show "\<exists>v2. collideProjectile p v1 = (False, v2)
             \<and> fst (collideAll (p # ps) v1) = fst (collideAll ps v2)
             \<and> detectCollisions w =
                 (snd (collideAll ps v2))\<lparr>projectiles := k1 @ fst (collideAll ps v2)\<rparr>
             \<and> (if e_health (enemies v1 ! i) - pr_damage p \<le> 0
                 then enemies v2 = take i (enemies v1) @ drop (Suc i) (enemies v1)
                    \<and> score v2 = score v1 + scoreValue (e_type (enemies v1 ! i))
                    \<and> (\<exists>new. boltPickups v2 = boltPickups v1 @ new
                          \<and> length new = boltCount (e_type (enemies v1 ! i)))
                 else enemies v2 =
                        (enemies v1)[i := (enemies v1 ! i)
                           \<lparr>e_health := e_health (enemies v1 ! i) - pr_damage p\<rparr>]
                    \<and> score v2 = score v1
                    \<and> boltPickups v2 = boltPickups v1)"
      by (intro exI [of _ "hitEnemy p i v1"] conjI c d d' e)
  next
    assume "started u \<and> \<not> paused u \<and> \<not> gameOver u \<and> currentWeapon u < length (weapons u)"
    then have r: "started u" "\<not> paused u" "\<not> gameOver u" "currentWeapon u < length (weapons u)"
      by simp_all
    show "\<exists>u1 u'. beforeCollisions inp u = Some u1 \<and> gameLoop inp u = Some u'
             \<and> score u' = score (detectCollisions u1)
             \<and> projectiles u' = projectiles (detectCollisions u1)
             \<and> boltPickups u' = boltPickups (collectBolts (detectCollisions u1))
             \<and> (enemies (detectCollisions u1) \<noteq> [] \<longrightarrow>
                   enemies u' = enemies (detectCollisions u1) \<and> wave u' = wave u)"
      by (rule gameLoop_after_pass [OF r])
  qed (simp_all add: scoreValue_def boltCount_def)
qed

text \<open>One frame of the two-drone game: the Blaster projectile overlaps both drones, only the
  one of higher index is hit, its health goes from 10 to exactly 0 and it is gone after
  the frame, the other drone keeps its 40 health, the score goes from 150 to 200, three
  pickups lie on the field and the projectile is gone.\<close>

theorem player_projectile_hits_once_witness:
  "score twoDrones = 150 \<and> wave twoDrones = 1 \<and> length (enemies twoDrones) = 2
   \<and> (\<exists>u'. gameLoop cornerInput twoDrones = Some u'
         \<and> enemies u' = [\<lparr>e_x = 228, e_y = 30, e_health = 40, e_maxHealth = 40,
                           e_type = Drone, e_angle = pi, shootCooldown = 56\<rparr>]
         \<and> score u' = 200 \<and> length (boltPickups u') = 3 \<and> projectiles u' = []
         \<and> wave u' = 1)"
proof -
  let ?p = "\<lparr>pr_x = 210, pr_y = 30, pr_vx = 15, pr_vy = 0, pr_damage = 10, isEnemy = False,
            pr_color = ''#00d4ff'', pr_size = 6\<rparr>"
  let ?d0 = "\<lparr>e_x = 228, e_y = 30, e_health = 40, e_maxHealth = 40, e_type = Drone,
               e_angle = pi, shootCooldown = 56\<rparr>"
  let ?d1 = "\<lparr>e_x = 238, e_y = 30, e_health = 10, e_maxHealth = 40, e_type = Drone,
               e_angle = pi, shootCooldown = 22\<rparr>"
  let ?m = "twoDrones\<lparr>enemies := [?d0, ?d1], projectiles := [?p]\<rparr>"
  have pm: "projectiles ?m = [] @ ?p # []" by simp
  have np: "\<not> isEnemy ?p" by simp
  have ca: "collideAll [] ?m = ([], ?m)" by simp
  have es: "enemies ?m = [?d0, ?d1]" by simp
  have sm: "score ?m = 150" by (simp add: twoDrones_fields)
  have both: "overlapsEnemy ?p ?d0" "overlapsEnemy ?p ?d1"
    by (simp_all add: overlapsEnemy_def enemySize_def)
  have h: "1 < length (enemies ?m) \<and> overlapsEnemy ?p (enemies ?m ! 1)
            \<and> (\<forall>j. 1 < j \<and> j < length (enemies ?m) \<longrightarrow> \<not> overlapsEnemy ?p (enemies ?m ! j))"
    unfolding es using both by simp
  have dead: "e_health (enemies ?m ! 1) - pr_damage ?p \<le> 0"
    unfolding es by simp
  have run: "started twoDrones \<and> \<not> paused twoDrones \<and> \<not> gameOver twoDrones
      \<and> currentWeapon twoDrones < length (weapons twoDrones)"
    using twoDrones_fields(1-3) twoDrones_valid by simp
  note t = player_projectile_hits_once [OF pm np ca, of 1 twoDrones cornerInput]
  from t [THEN conjunct2, THEN conjunct1, rule_format, OF h]
  obtain v2 where dc: "detectCollisions ?m =
                 (snd (collideAll [] v2))\<lparr>projectiles := [] @ fst (collideAll [] v2)\<rparr>"
    and r: "if e_health (enemies ?m ! 1) - pr_damage ?p \<le> 0
                 then enemies v2 = take 1 (enemies ?m) @ drop (Suc 1) (enemies ?m)
                    \<and> score v2 = score ?m + scoreValue (e_type (enemies ?m ! 1))
                    \<and> (\<exists>new. boltPickups v2 = boltPickups ?m @ new
                          \<and> length new = boltCount (e_type (enemies ?m ! 1)))
                 else enemies v2 =
                        (enemies ?m)[1 := (enemies ?m ! 1)
                           \<lparr>e_health := e_health (enemies ?m ! 1) - pr_damage ?p\<rparr>]
                    \<and> score v2 = score ?m
                    \<and> boltPickups v2 = boltPickups ?m"
    by (elim exE conjE)
  have r': "enemies v2 = take 1 (enemies ?m) @ drop (Suc 1) (enemies ?m)
                    \<and> score v2 = score ?m + scoreValue (e_type (enemies ?m ! 1))"
    using r dead by (simp only: if_True)
  have dc': "detectCollisions ?m = v2\<lparr>projectiles := []\<rparr>" using dc by simp
  have e1: "enemies (detectCollisions ?m) = [?d0]"
    unfolding dc' using r' unfolding es by simp
  have e2: "score (detectCollisions ?m) = 200"
    unfolding dc' using r' unfolding es sm by (simp add: scoreValue_def)
  have e3: "projectiles (detectCollisions ?m) = []"
    unfolding dc' by simp
  from t [THEN conjunct2, THEN conjunct2, THEN conjunct1, rule_format, OF run]
  obtain u1 u' where b: "beforeCollisions cornerInput twoDrones = Some u1"
    and g: "gameLoop cornerInput twoDrones = Some u'"
    and f1: "score u' = score (detectCollisions u1)"
    and f2: "projectiles u' = projectiles (detectCollisions u1)"
    and f3: "boltPickups u' = boltPickups (collectBolts (detectCollisions u1))"
    and f4: "enemies (detectCollisions u1) \<noteq> [] \<longrightarrow>
                   enemies u' = enemies (detectCollisions u1) \<and> wave u' = wave twoDrones"
    by (elim exE conjE)
  have u1: "u1 = ?m" using b twoDrones_before by simp
  have g1: "enemies u' = [?d0]" using f4 unfolding u1 e1 by simp
  have g2: "score u' = 200" using f1 unfolding u1 e2 .
  have g3: "length (boltPickups u') = 3" unfolding f3 u1 twoDrones_pickups by simp
  have g4: "projectiles u' = []" using f2 unfolding u1 e3 .
  have g5: "wave u' = 1" using f4 unfolding u1 e1 by (simp add: twoDrones_fields)
  have "\<exists>u'. gameLoop cornerInput twoDrones = Some u'
         \<and> enemies u' = [?d0]
         \<and> score u' = 200 \<and> length (boltPickups u') = 3 \<and> projectiles u' = []
         \<and> wave u' = 1"
    by (intro exI [of _ u'] conjI g g1 g2 g3 g4 g5)
  moreover have "length (enemies twoDrones) = 2" by (simp add: twoDrones_def)
  ultimately show ?thesis by (simp add: twoDrones_fields)
qed

subsection \<open>Invincibility\<close>



subsection \<open>Wave progression\<close>

text \<open>
  Claim C8. A frame that returns increments the wave counter, by exactly one and together
  with the spawn of that wave, if and only if the game is running and the enemy list is
  empty at the wave-progression step; in every other case the counter is unchanged and the
  enemies are those present at that step (or, when the frame is gated, those of the
  start). Nothing but the enemy list enters the test.
\<close>

theorem wave_advances_iff_empty:
  assumes "gameLoop inp w = Some w'"
  shows "(if started w \<and> \<not> paused w \<and> \<not> gameOver w
             \<and> map_option enemies (untilWaveStep inp w) = Some []
          then wave w' = wave w + 1
             \<and> length (enemies w') =
                 3 + 2 * (wave w + 1) + (if (wave w + 1) mod 5 = 0 then 1 else 0)
          else wave w' = wave w
             \<and> Some (enemies w') =
                 (if \<not> started w \<or> paused w \<or> gameOver w then Some (enemies w)
                  else map_option enemies (untilWaveStep inp w)))"
proof (cases "\<not> started w \<or> paused w \<or> gameOver w")
  case True
  then have eq: "w' = w" using assms by (simp add: gameLoop_def)
  have n: "\<not> (started w \<and> \<not> paused w \<and> \<not> gameOver w
             \<and> map_option enemies (untilWaveStep inp w) = Some [])"
    using True by blast
  show ?thesis
    unfolding eq by (simp only: n if_False True if_True simp_thms)
next
  case False
  have "\<exists>w2. untilWaveStep inp w = Some w2 \<and> w' = updateParticles (advanceWave w2)"
    using assms False by (cases "untilWaveStep inp w") (auto simp add: gameLoop_def)
  then obtain w2 where u: "untilWaveStep inp w = Some w2"
    and e: "w' = updateParticles (advanceWave w2)"
    by (elim exE conjE)
  have wv: "wave w2 = wave w" by (rule untilWaveStep_wave [OF u])
  show ?thesis
  proof (cases "enemies w2 = []")
    case True
    then have "wave w' = wave w + 1 \<and> length (enemies w') =
                 3 + 2 * (wave w + 1) + (if (wave w + 1) mod 5 = 0 then 1 else 0)"
      unfolding e using wv
      by (simp add: updateParticles_def advanceWave_def spawnWave_length)
    then show ?thesis using False True u by simp
  next
    case nonempty: False
    then have "wave w' = wave w \<and> enemies w' = enemies w2"
      unfolding e using wv by (simp add: updateParticles_def advanceWave_def)
    then show ?thesis using False nonempty u by simp
  qed
qed

text \<open>In the concrete frame the last drone dies, so wave 2 with its seven enemies
  spawns.\<close>

theorem wave_advances_iff_empty_witness:
  "\<exists>w'. gameLoop idleInput lastStand = Some w' \<and> wave lastStand = 1 \<and> wave w' = 2
      \<and> length (enemies w') = 7"
proof -
  obtain w1 w2 where g: "gameLoop idleInput lastStand = Some (updateParticles (advanceWave w2))"
    using gameLoop_running [OF lastStand_fields(1-3) lastStand_valid, of idleInput] by blast
  let ?w' = "updateParticles (advanceWave w2)"
  have c: "started lastStand \<and> \<not> paused lastStand \<and> \<not> gameOver lastStand
             \<and> map_option enemies (untilWaveStep idleInput lastStand) = Some []"
    using lastStand_fields(1-3) lastStand_untilWave by simp
  have "wave ?w' = wave lastStand + 1
             \<and> length (enemies ?w') =
                 3 + 2 * (wave lastStand + 1) + (if (wave lastStand + 1) mod 5 = 0 then 1 else 0)"
    using wave_advances_iff_empty [OF g] by (simp only: if_P [OF c])
  then have "wave ?w' = 2 \<and> length (enemies ?w') = 7"
    by (simp add: lastStand_fields)
  then show ?thesis
    using g lastStand_fields(8) by (intro exI [of _ ?w']) simp
qed

subsection \<open>The gate\<close>

text \<open>
  Claim C9. When the game is not started, is paused or is over, a frame returns the state
  unchanged, and so does any sequence of frames: after game over nothing changes until
  something other than a frame (such as \<open>resetGame\<close>) changes the state.
\<close>

theorem gated_frame_is_noop:
  assumes "\<not> started w \<or> paused w \<or> gameOver w"
  shows "gameLoop inp w = Some w \<and> gameLoops inps w = Some w"
proof -
  have one: "gameLoop i w = Some w" for i
    using assms by (simp add: gameLoop_def)
  have "gameLoops inps w = Some w"
    by (induction inps) (simp_all add: one)
  then show ?thesis using one by simp
qed

text \<open>The initial state (not started), a paused game and a game that is over.\<close>

theorem gated_frame_is_noop_witness:
  "gameLoop idleInput (initialWorld (\<lambda>_. 0)) = Some (initialWorld (\<lambda>_. 0))
   \<and> gameLoop idleInput (lastStand\<lparr>paused := True\<rparr>) = Some (lastStand\<lparr>paused := True\<rparr>)
   \<and> gameLoops [idleInput, idleInput, idleInput] (lastStand\<lparr>gameOver := True\<rparr>)
       = Some (lastStand\<lparr>gameOver := True\<rparr>)"
proof -
  have a: "\<not> started (initialWorld (\<lambda>_. 0)) \<or> paused (initialWorld (\<lambda>_. 0))
      \<or> gameOver (initialWorld (\<lambda>_. 0))"
    by (simp add: initialWorld_def)
  have b: "\<not> started (lastStand\<lparr>paused := True\<rparr>) \<or> paused (lastStand\<lparr>paused := True\<rparr>)
      \<or> gameOver (lastStand\<lparr>paused := True\<rparr>)"
    by simp
  have c: "\<not> started (lastStand\<lparr>gameOver := True\<rparr>) \<or> paused (lastStand\<lparr>gameOver := True\<rparr>)
      \<or> gameOver (lastStand\<lparr>gameOver := True\<rparr>)"
    by simp
  show ?thesis
    using gated_frame_is_noop [OF a, of idleInput "[]"]
      gated_frame_is_noop [OF b, of idleInput "[]"]
      gated_frame_is_noop [OF c, of idleInput "[idleInput, idleInput, idleInput]"]
    by (intro conjI) (elim conjE, assumption)+
qed

subsection \<open>The frame that ends the game\<close>

text \<open>
  Claim C10. In a frame of a running game whose collision pass sets \<open>gameOver\<close>, the rest
  of the frame runs as in any other frame: the frame completes with \<open>gameOver\<close> set, the
  currency has grown by the number of uncollected pickups within reach at the pickup
  step, the ammo has regenerated, and the wave counter has advanced with a new wave spawned
  exactly when the collision pass left no enemy; the score is that after the whole collision
  pass. The collision pass itself treats the projectiles after the fatal one as it would
  without the flag: \<open>collideAll\<close> run from a state with the flag set gives the same kept
  projectiles and the same state, flag apart. Only the next frame is stopped by the gate.
\<close>

theorem gameOver_frame_still_runs:
  assumes "started w" and "\<not> paused w" and "\<not> gameOver w"
    and "weaponAt (weapons w) (currentWeapon w) = Some weapon"
    and "beforeCollisions inp w = Some w1"
    and "gameOver (detectCollisions w1)"
  shows "\<exists>w'. gameLoop inp w = Some w' \<and> gameOver w'
     \<and> bolts w' = bolts w + real (length (filter
           (\<lambda>b. \<not> collected b \<and> nearPlayer (detectCollisions w1) b)
           (boltPickups (detectCollisions w1))))
     \<and> ammo w' = (if ammo w1 < ammoMax weapon then min (ammoMax weapon) (ammo w1 + 0.1)
                  else ammo w1)
     \<and> wave w' = (if enemies (detectCollisions w1) = [] then wave w + 1 else wave w)
     \<and> length (enemies w') =
         (if enemies (detectCollisions w1) = []
          then 3 + 2 * (wave w + 1) + (if (wave w + 1) mod 5 = 0 then 1 else 0)
          else length (enemies (detectCollisions w1)))
     \<and> score w' = score (detectCollisions w1)
     \<and> (\<forall>inp2. gameLoop inp2 w' = Some w')
     \<and> (\<forall>qs v. collideAll qs (v\<lparr>gameOver := True\<rparr>)
           = (fst (collideAll qs v), (snd (collideAll qs v))\<lparr>gameOver := True\<rparr>))"
proof -
  have valid: "currentWeapon w < length (weapons w)"
    using assms(4) by (simp add: weaponAt_def split: if_splits)
  have wpn: "weapons w ! currentWeapon w = weapon"
    using assms(4) by (simp add: weaponAt_def split: if_splits)
  from gameLoop_summary [OF assms(1-3) valid, of inp]
  obtain v1 w' where b: "beforeCollisions inp w = Some v1"
    and g: "gameLoop inp w = Some w'"
    and go: "gameOver w' = gameOver (detectCollisions v1)"
    and sc: "score w' = score (detectCollisions v1)"
    and bo: "bolts w' = bolts (collectBolts (detectCollisions v1))"
    and am: "ammo w' = (if ammo v1 < ammoMax (weapons w ! currentWeapon w)
                  then min (ammoMax (weapons w ! currentWeapon w)) (ammo v1 + 0.1)
                  else ammo v1)"
    and wv: "wave w' = (if enemies (detectCollisions v1) = [] then wave w + 1 else wave w)"
    and en: "length (enemies w') =
         (if enemies (detectCollisions v1) = []
          then 3 + 2 * (wave w + 1) + (if (wave w + 1) mod 5 = 0 then 1 else 0)
          else length (enemies (detectCollisions v1)))"
    by (elim exE conjE)
  have eq: "v1 = w1" using b assms(5) by simp
  have c1: "gameOver w'" using go assms(6) unfolding eq by simp
  have "bolts (detectCollisions w1) = bolts w"
    using beforeCollisions_frame [OF assms(5)] by simp
  then have c2: "bolts w' = bolts w + real (length (filter
           (\<lambda>b. \<not> collected b \<and> nearPlayer (detectCollisions w1) b)
           (boltPickups (detectCollisions w1))))"
    using bo unfolding eq collectBolts_bolts by simp
  have c3: "ammo w' = (if ammo w1 < ammoMax weapon then min (ammoMax weapon) (ammo w1 + 0.1)
                  else ammo w1)"
    using am unfolding eq wpn .
  have c4: "wave w' = (if enemies (detectCollisions w1) = [] then wave w + 1 else wave w)"
    using wv unfolding eq .
  have c5: "length (enemies w') =
         (if enemies (detectCollisions w1) = []
          then 3 + 2 * (wave w + 1) + (if (wave w + 1) mod 5 = 0 then 1 else 0)
          else length (enemies (detectCollisions w1)))"
    using en unfolding eq .
  have c6: "score w' = score (detectCollisions w1)" using sc unfolding eq .
  have c7: "\<forall>inp2. gameLoop inp2 w' = Some w'"
    using c1 by (simp add: gameLoop_def)
  have c8: "\<forall>qs v. collideAll qs (v\<lparr>gameOver := True\<rparr>)
           = (fst (collideAll qs v), (snd (collideAll qs v))\<lparr>gameOver := True\<rparr>)"
    by (intro allI collideAll_gameOver_set)
  show ?thesis
    by (intro exI [of _ w'] conjI g c1 c2 c3 c4 c5 c6 c7 c8)
qed

text \<open>The concrete frame: the first projectile ends the game, the second one still kills
  the last drone (score 50), the pickup next to the player is collected, ammo goes from 50
  to 50.1, wave 2 spawns with seven enemies, and the next frame changes nothing.\<close>

theorem gameOver_frame_still_runs_witness:
  "\<not> gameOver lastStand \<and> bolts lastStand = 0 \<and> ammo lastStand = 50 \<and> wave lastStand = 1
   \<and> score lastStand = 0
   \<and> (\<exists>w'. gameLoop idleInput lastStand = Some w' \<and> gameOver w'
         \<and> bolts w' = 1 \<and> ammo w' = 50.1 \<and> wave w' = 2 \<and> length (enemies w') = 7
         \<and> score w' = 50 \<and> gameLoop idleInput w' = Some w')"
proof -
  have wa: "weaponAt (weapons lastStand) (currentWeapon lastStand) = Some (initialWeapons ! 0)"
    by (simp add: lastStand_fields weaponAt_def initialWeapons_def)
  from gameOver_frame_still_runs [OF lastStand_fields(1-3) wa lastStand_before
      lastStand_collisions(2)]
  obtain w' where g: "gameLoop idleInput lastStand = Some w'" and o: "gameOver w'"
    and b: "bolts w' = bolts lastStand + real (length (filter
           (\<lambda>b. \<not> collected b \<and> nearPlayer (detectCollisions lastStandMoved) b)
           (boltPickups (detectCollisions lastStandMoved))))"
    and a: "ammo w' = (if ammo lastStandMoved < ammoMax (initialWeapons ! 0)
                  then min (ammoMax (initialWeapons ! 0)) (ammo lastStandMoved + 0.1)
                  else ammo lastStandMoved)"
    and wv: "wave w' = (if enemies (detectCollisions lastStandMoved) = []
                  then wave lastStand + 1 else wave lastStand)"
    and en: "length (enemies w') =
         (if enemies (detectCollisions lastStandMoved) = []
          then 3 + 2 * (wave lastStand + 1) + (if (wave lastStand + 1) mod 5 = 0 then 1 else 0)
          else length (enemies (detectCollisions lastStandMoved)))"
    and sc: "score w' = score (detectCollisions lastStandMoved)"
    and nx: "\<forall>inp2. gameLoop inp2 w' = Some w'"
    by (elim exE conjE)
  have b': "bolts w' = 1"
    unfolding b by (simp add: lastStand_collisions nearPlayer_def lastStand_fields)
  have a': "ammo w' = 50.1"
    unfolding a by (simp add: lastStandMoved_fields initialWeapons_def)
  have wv': "wave w' = 2" unfolding wv by (simp add: lastStand_collisions lastStand_fields)
  have en': "length (enemies w') = 7"
    unfolding en by (simp add: lastStand_collisions lastStand_fields)
  have sc': "score w' = 50" unfolding sc by (simp add: lastStand_collisions)
  have nx': "gameLoop idleInput w' = Some w'" using nx by (rule spec)
  have "\<exists>w'. gameLoop idleInput lastStand = Some w' \<and> gameOver w'
         \<and> bolts w' = 1 \<and> ammo w' = 50.1 \<and> wave w' = 2 \<and> length (enemies w') = 7
         \<and> score w' = 50 \<and> gameLoop idleInput w' = Some w'"
    by (intro exI [of _ w'] conjI g o b' a' wv' en' sc' nx')
  then show ?thesis by (simp add: lastStand_fields)
qed

end
